theory Spec2Isabelle
  imports Complex_Main "HOL-Library.Word"
begin

section \<open>Python values used by the bridge\<close>

text \<open>
  The bridge (\<^verbatim>\<open>loop_mcp_bridge_stdio.py\<close>) moves JSON documents between a line-delimited
  stdio transport and a length-prefixed TCP transport.  Bytes are 8-bit words, Python
  \<^verbatim>\<open>str\<close> values are HOL strings, Python \<^verbatim>\<open>int\<close> values are HOL integers.  A parsed JSON
  document is a value of \<open>json\<close>; a Python \<^verbatim>\<open>dict\<close> with string keys is an association list
  in insertion order.  Floating-point numbers are left out of the document type.
\<close>

type_synonym byte = "8 word"
type_synonym bytes = "byte list"

datatype json =
    JNull
  | JBool bool
  | JInt int
  | JStr string
  | JArr "json list"
  | JObj "(string \<times> json) list"

type_synonym dict = "(string \<times> json) list"

text \<open>\<^verbatim>\<open>d.get(k)\<close>: the value stored under \<open>k\<close>, or \<^verbatim>\<open>None\<close>.\<close>

definition dict_get :: "dict \<Rightarrow> string \<Rightarrow> json" where
  "dict_get d k = (case map_of d k of None \<Rightarrow> JNull | Some v \<Rightarrow> v)"

text \<open>\<^verbatim>\<open>d.get(k, default)\<close>.\<close>

definition dict_get_default :: "dict \<Rightarrow> string \<Rightarrow> json \<Rightarrow> json" where
  "dict_get_default d k dflt = (case map_of d k of None \<Rightarrow> dflt | Some v \<Rightarrow> v)"

subsection \<open>Exceptions\<close>

text \<open>
  An exception is its class and the text \<^verbatim>\<open>str(e)\<close> gives.  Only subclasses of
  \<^verbatim>\<open>Exception\<close> are modelled; task cancellation is not.
\<close>

datatype exn_class =
    ConnectionRefusedError
  | ConnectionResetError
  | BrokenPipeError
  | OSError
  | IncompleteReadError
  | StructError
  | JSONDecodeError
  | UnicodeDecodeError
  | TypeError
  | ValueError
  | KeyError
  | IndexError
  | AttributeError
  | ValidationError
  | BrokenResourceError

datatype exn = Exn (cls: exn_class) (str_of: string)

text \<open>The classes caught by \<^verbatim>\<open>except (ConnectionRefusedError, OSError)\<close> in \<^verbatim>\<open>connect\<close>.\<close>

fun is_OSError :: "exn_class \<Rightarrow> bool" where
  "is_OSError ConnectionRefusedError = True"
| "is_OSError ConnectionResetError = True"
| "is_OSError BrokenPipeError = True"
| "is_OSError OSError = True"
| "is_OSError _ = False"

text \<open>
  The classes caught by the first handler of \<^verbatim>\<open>send_request\<close>:
  \<^verbatim>\<open>except (asyncio.IncompleteReadError, ConnectionResetError, BrokenPipeError,
  ConnectionRefusedError, OSError)\<close>.
\<close>

definition is_transport :: "exn_class \<Rightarrow> bool" where
  "is_transport c \<longleftrightarrow> c = IncompleteReadError \<or> is_OSError c"

subsection \<open>Decimal text of integers\<close>

definition digit_char :: "nat \<Rightarrow> char" where
  "digit_char d = ''0123456789'' ! d"

fun str_nat :: "nat \<Rightarrow> string" where
  "str_nat n = (if n < 10 then [digit_char n] else str_nat (n div 10) @ [digit_char (n mod 10)])"

declare str_nat.simps [simp del]

definition str_int :: "int \<Rightarrow> string" where
  "str_int i = (if i < 0 then CHR ''-'' # str_nat (nat (- i)) else str_nat (nat i))"

section \<open>The framed channel\<close>

text \<open>
  \<^verbatim>\<open>struct.pack(">I", n)\<close>: four bytes, most significant first; \<^verbatim>\<open>struct.error\<close> when \<open>n\<close>
  does not fit 32 bits
  (\<open>4294967296 = 2 ^ 32\<close>).
\<close>

definition pack_be32 :: "nat \<Rightarrow> exn + bytes" where
  "pack_be32 n =
     (if n < 4294967296
      then Inr [of_nat (n div 16777216), of_nat (n div 65536), of_nat (n div 256), of_nat n]
      else Inl (Exn StructError ''argument out of range''))"

text \<open>\<^verbatim>\<open>struct.unpack(">I", data)[0]\<close> on four bytes.\<close>

definition unpack_be32 :: "bytes \<Rightarrow> nat" where
  "unpack_be32 data =
     unat (data ! 0) * 16777216 + unat (data ! 1) * 65536 + unat (data ! 2) * 256
       + unat (data ! 3)"

text \<open>
  The JSON library and the UTF-8 codec are not code of the bridge; they are parameters.
  \<open>dumps\<close> stands for \<^verbatim>\<open>json.dumps(x).encode("utf-8")\<close> and \<open>loads\<close> for
  \<^verbatim>\<open>json.loads(b.decode("utf-8"))\<close>; either may raise.
\<close>

record codec =
  dumps :: "json \<Rightarrow> exn + bytes"
  loads :: "bytes \<Rightarrow> exn + json"

subsection \<open>Socket streams\<close>

text \<open>
  A \<^verbatim>\<open>StreamReader\<close> is the bytes the peer will deliver, and how the stream ends after
  them: at end of file (\<open>None\<close>) or with a socket error.
\<close>

record stream_reader =
  buffered :: bytes
  broken :: "exn option"

definition readexactly :: "nat \<Rightarrow> stream_reader \<Rightarrow> (exn + bytes) \<times> stream_reader" where
  "readexactly n r =
     (if n \<le> length (buffered r)
      then (Inr (take n (buffered r)), r\<lparr>buffered := drop n (buffered r)\<rparr>)
      else (Inl (case broken r of
                   Some e \<Rightarrow> e
                 | None \<Rightarrow> Exn IncompleteReadError
                     (str_nat (length (buffered r)) @ '' bytes read on a total of ''
                        @ str_nat n @ '' expected bytes'')),
            r\<lparr>buffered := []\<rparr>))"

text \<open>
  A \<^verbatim>\<open>StreamWriter\<close> is the bytes handed to \<^verbatim>\<open>write\<close> so far and the outcome of each
  coming \<^verbatim>\<open>drain\<close>; when the list is used up every later \<^verbatim>\<open>drain\<close> succeeds.
\<close>

record stream_writer =
  written :: bytes
  drains :: "exn option list"

definition stream_write :: "bytes \<Rightarrow> stream_writer \<Rightarrow> stream_writer" where
  "stream_write data wr = wr\<lparr>written := written wr @ data\<rparr>"

definition drain :: "stream_writer \<Rightarrow> exn option \<times> stream_writer" where
  "drain wr = (case drains wr of [] \<Rightarrow> (None, wr) | x # xs \<Rightarrow> (x, wr\<lparr>drains := xs\<rparr>))"

section \<open>The TCP client\<close>

datatype log_level = DEBUG | INFO | WARNING | ERROR

text \<open>
  What a run does to the outside, in order: dialling the backend, sleeping, taking and
  releasing the client's lock, writing a frame, asking the reader for bytes, closing the
  socket, and logging (the level only).
\<close>

datatype event =
    Dial
  | Sleep rat
  | Acquire
  | Release
  | Send bytes
  | Recv nat
  | Close
  | Log log_level

datatype dial_result = Connected stream_reader stream_writer | Refused exn

text \<open>
  \<open>world\<close> holds the fields of \<^verbatim>\<open>UnityTcpClient\<close> under their own names, and the
  surroundings: \<open>network k\<close> is the outcome of the \<open>k\<close>-th call of
  \<^verbatim>\<open>asyncio.open_connection\<close>, \<open>dialled\<close> counts the calls made, \<open>trace\<close> lists the events.
\<close>

record world =
  host :: string
  port :: int
  retry_time :: rat
  retry_count :: int
  reader :: "stream_reader option"
  writer :: "stream_writer option"
  network :: "nat \<Rightarrow> dial_result"
  dialled :: nat
  trace :: "event list"

definition emit :: "event \<Rightarrow> world \<Rightarrow> world" where
  "emit e w = w\<lparr>trace := trace w @ [e]\<rparr>"

definition emits :: "event list \<Rightarrow> world \<Rightarrow> world" where
  "emits es w = w\<lparr>trace := trace w @ es\<rparr>"

text \<open>\<^verbatim>\<open>asyncio.open_connection(self.host, self.port)\<close>.\<close>

definition open_connection :: "world \<Rightarrow> dial_result \<times> world" where
  "open_connection w = (network w (dialled w), emit Dial (w\<lparr>dialled := Suc (dialled w)\<rparr>))"

text \<open>
  \<^verbatim>\<open>connect\<close>: the body of \<^verbatim>\<open>for attempt in range(self.retry_count)\<close>, over the list of
  attempt numbers still to run.  An exception of \<^verbatim>\<open>open_connection\<close> that the handler does
  not name leaves \<^verbatim>\<open>connect\<close>.
\<close>

fun connect_loop :: "nat list \<Rightarrow> world \<Rightarrow> (exn + bool) \<times> world" where
  "connect_loop [] w = (Inr False, emit (Log ERROR) w)"
| "connect_loop (attempt # rest) w =
     (case open_connection (emit (Log INFO) w) of
        (Connected r wr, w') \<Rightarrow>
          (Inr True, emit (Log INFO) (w'\<lparr>reader := Some r, writer := Some wr\<rparr>))
      | (Refused e, w') \<Rightarrow>
          if is_OSError (cls e)
          then connect_loop rest
                 (if int attempt < retry_count w - 1
                  then emit (Sleep (retry_time w)) (emit (Log INFO) (emit (Log WARNING) w'))
                  else emit (Log WARNING) w')
          else (Inl e, w'))"

definition connect :: "world \<Rightarrow> (exn + bool) \<times> world" where
  "connect w = connect_loop [0..<nat (retry_count w)] w"

text \<open>\<^verbatim>\<open>disconnect\<close>: errors of \<^verbatim>\<open>wait_closed\<close> are swallowed.\<close>

definition disconnect :: "world \<Rightarrow> world" where
  "disconnect w =
     (case writer w of
        None \<Rightarrow> w
      | Some wr \<Rightarrow> emit (Log INFO) ((emit Close w)\<lparr>writer := None, reader := None\<rparr>))"

subsection \<open>One framed exchange\<close>

text \<open>
  The sending half of the \<^verbatim>\<open>try\<close> block of \<^verbatim>\<open>send_request\<close>: the document as UTF-8 JSON
  behind its length, \<^verbatim>\<open>struct.pack(">I", len(message)) + message\<close>.
\<close>

definition encode_frame :: "codec \<Rightarrow> json \<Rightarrow> exn + bytes" where
  "encode_frame cd document =
     (case dumps cd document of
        Inl e \<Rightarrow> Inl e
      | Inr message \<Rightarrow>
          (case pack_be32 (length message) of
             Inl e \<Rightarrow> Inl e
           | Inr length_prefix \<Rightarrow> Inr (length_prefix @ message)))"

text \<open>
  The receiving half: \<^verbatim>\<open>readexactly(4)\<close>, the length, \<^verbatim>\<open>readexactly(response_length)\<close>,
  \<^verbatim>\<open>json.loads\<close>.  The reader is returned as the reads left it.
\<close>

definition decode_frame :: "codec \<Rightarrow> stream_reader \<Rightarrow> (exn + json) \<times> stream_reader \<times> event list" where
  "decode_frame cd r =
     (case readexactly 4 r of
        (Inl e, r1) \<Rightarrow> (Inl e, r1, [Recv 4])
      | (Inr length_data, r1) \<Rightarrow>
          (let response_length = unpack_be32 length_data in
           case readexactly response_length r1 of
             (Inl e, r2) \<Rightarrow> (Inl e, r2, [Recv 4, Recv response_length])
           | (Inr response_data, r2) \<Rightarrow>
               (loads cd response_data, r2, [Recv 4, Recv response_length])))"

definition exchange ::
  "codec \<Rightarrow> dict \<Rightarrow> stream_reader \<Rightarrow> stream_writer \<Rightarrow>
     (exn + json) \<times> stream_reader \<times> stream_writer \<times> event list" where
  "exchange cd request r wr =
     (case encode_frame cd (JObj request) of
        Inl e \<Rightarrow> (Inl e, r, wr, [])
      | Inr frame \<Rightarrow>
          (case drain (stream_write frame wr) of
             (Some e, wr') \<Rightarrow> (Inl e, r, wr', [Send frame])
           | (None, wr') \<Rightarrow>
               (case decode_frame cd r of
                  (Inl e, r', evs) \<Rightarrow> (Inl e, r', wr', Send frame # Log DEBUG # evs)
                | (Inr response, r', evs) \<Rightarrow>
                    (Inr response, r', wr', Send frame # Log DEBUG # evs @ [Log DEBUG]))))"

subsection \<open>\<^verbatim>\<open>send_request\<close>\<close>

text \<open>The two error documents \<^verbatim>\<open>send_request\<close> builds itself.\<close>

definition error_response :: "dict \<Rightarrow> int \<Rightarrow> string \<Rightarrow> json" where
  "error_response request code message =
     JObj [(''jsonrpc'', JStr ''2.0''), (''id'', dict_get request ''id''),
           (''error'', JObj [(''code'', JInt code), (''message'', JStr message)])]"

text \<open>\<^verbatim>\<open>f"{last_error}"\<close> for a value that is \<^verbatim>\<open>None\<close> or a string.\<close>

definition fmt_last_error :: "string option \<Rightarrow> string" where
  "fmt_last_error last_error = (case last_error of None \<Rightarrow> ''None'' | Some s \<Rightarrow> s)"

text \<open>
  How the block under \<^verbatim>\<open>async with self._lock\<close> ends: with \<^verbatim>\<open>return\<close>, with an exception
  that leaves \<^verbatim>\<open>send_request\<close>, or by falling through to the rest of the loop body with the
  current \<^verbatim>\<open>last_error\<close>.
\<close>

datatype step = Return json | Raise exn | Retry "string option"

text \<open>
  The first statement under the lock: \<^verbatim>\<open>if not self.writer or not self.reader\<close>, call
  \<^verbatim>\<open>connect\<close>, and note \<^verbatim>\<open>"Failed to connect"\<close> when it returns \<^verbatim>\<open>False\<close>.  The call stands
  outside the \<^verbatim>\<open>try\<close>, so an exception of \<^verbatim>\<open>connect\<close> leaves \<^verbatim>\<open>send_request\<close>.
\<close>

definition ensure_connected :: "string option \<Rightarrow> world \<Rightarrow> (exn + string option) \<times> world" where
  "ensure_connected last_error w =
     (if writer w = None \<or> reader w = None
      then (case connect w of
              (Inl e, w') \<Rightarrow> (Inl e, w')
            | (Inr ok, w') \<Rightarrow> (Inr (if ok then last_error else Some ''Failed to connect''), w'))
      else (Inr last_error, w))"

text \<open>
  The second statement under the lock: \<^verbatim>\<open>if self.writer and self.reader\<close>, the exchange in
  its \<^verbatim>\<open>try\<close> with the two handlers.
\<close>

definition try_exchange :: "codec \<Rightarrow> dict \<Rightarrow> string option \<Rightarrow> world \<Rightarrow> step \<times> world" where
  "try_exchange cd request last_error w =
     (case (writer w, reader w) of
        (Some wr, Some r) \<Rightarrow>
          (case exchange cd request r wr of
             (res, r', wr', evs) \<Rightarrow>
               (let w' = emits evs (w\<lparr>reader := Some r', writer := Some wr'\<rparr>) in
                case res of
                  Inr response \<Rightarrow> (Return response, w')
                | Inl e \<Rightarrow>
                    if is_transport (cls e)
                    then (Retry (Some (str_of e)), disconnect (emit (Log WARNING) w'))
                    else (Return (error_response request (- 32603)
                                   (''Internal error: '' @ str_of e)),
                          emit (Log ERROR) w')))
      | _ \<Rightarrow> (Retry last_error, w))"

text \<open>The block \<^verbatim>\<open>async with self._lock\<close>: the lock is released however the block ends.\<close>

definition attempt_locked :: "codec \<Rightarrow> dict \<Rightarrow> string option \<Rightarrow> world \<Rightarrow> step \<times> world" where
  "attempt_locked cd request last_error w =
     (case ensure_connected last_error (emit Acquire w) of
        (Inl e, w1) \<Rightarrow> (Raise e, emit Release w1)
      | (Inr last_error1, w1) \<Rightarrow>
          (case try_exchange cd request last_error1 w1 of
             (st, w2) \<Rightarrow> (st, emit Release w2)))"

text \<open>
  The body of \<^verbatim>\<open>for attempt in range(self.retry_count)\<close> over the attempt numbers still to
  run, and the \<^verbatim>\<open>return\<close> after the loop.
\<close>

fun send_loop :: "codec \<Rightarrow> dict \<Rightarrow> nat list \<Rightarrow> string option \<Rightarrow> world \<Rightarrow> (exn + json) \<times> world" where
  "send_loop cd request [] last_error w =
     (Inr (error_response request (- 32000)
             (''Failed to communicate with Unity after '' @ str_int (retry_count w)
                @ '' attempts. Last error: '' @ fmt_last_error last_error)), w)"
| "send_loop cd request (attempt # rest) last_error w =
     (case attempt_locked cd request last_error w of
        (Return response, w') \<Rightarrow> (Inr response, w')
      | (Raise e, w') \<Rightarrow> (Inl e, w')
      | (Retry last_error', w') \<Rightarrow>
          send_loop cd request rest last_error'
            (if int attempt < retry_count w - 1
             then emit (Sleep (retry_time w)) (emit (Log INFO) w')
             else w'))"

definition send_request :: "codec \<Rightarrow> dict \<Rightarrow> world \<Rightarrow> (exn + json) \<times> world" where
  "send_request cd request w = send_loop cd request [0..<nat (retry_count w)] None w"
section \<open>A reading of the JSON library\<close>

text \<open>
  Where a run is computed on concrete documents the library is read as follows, on the
  documents of type \<open>json\<close> and on strings of code points below 256.  \<open>json_dumps\<close> is
  \<^verbatim>\<open>json.dumps(x).encode("utf-8")\<close> with the default separators and \<^verbatim>\<open>ensure_ascii\<close>;
  \<open>json_loads\<close> is \<^verbatim>\<open>json.loads(b.decode("utf-8"))\<close>, a recursive-descent parser that gets its
  recursion depth as fuel, enough for every text.  Of a decoding error only the class is meant:
  the text the library gives for it is not reproduced.
\<close>

definition bytes_of :: "string \<Rightarrow> bytes" where
  "bytes_of s = map of_char s"

definition text_of :: "bytes \<Rightarrow> string" where
  "text_of bs = map (\<lambda>b. char_of (unat b)) bs"

definition hex_digit :: "nat \<Rightarrow> char" where
  "hex_digit d = ''0123456789abcdef'' ! d"

definition escape_char :: "char \<Rightarrow> string" where
  "escape_char c =
     (if c = CHR 0x22 then [CHR 0x5C, CHR 0x22]
      else if c = CHR 0x5C then [CHR 0x5C, CHR 0x5C]
      else if c = CHR 0x0A then [CHR 0x5C, CHR ''n'']
      else if c = CHR 0x0D then [CHR 0x5C, CHR ''r'']
      else if c = CHR 0x09 then [CHR 0x5C, CHR ''t'']
      else if c = CHR 0x08 then [CHR 0x5C, CHR ''b'']
      else if c = CHR 0x0C then [CHR 0x5C, CHR ''f'']
      else if (of_char c :: nat) < 32 \<or> 126 < (of_char c :: nat)
      then [CHR 0x5C, CHR ''u'', CHR ''0'', CHR ''0'',
            hex_digit (of_char c div 16), hex_digit (of_char c mod 16)]
      else [c])"

definition quote :: "string \<Rightarrow> string" where
  "quote s = CHR 0x22 # concat (map escape_char s) @ [CHR 0x22]"

fun join :: "string \<Rightarrow> string list \<Rightarrow> string" where
  "join sep [] = []"
| "join sep [x] = x"
| "join sep (x # y # ys) = x @ sep @ join sep (y # ys)"

fun json_text :: "json \<Rightarrow> string" where
  "json_text JNull = ''null''"
| "json_text (JBool b) = (if b then ''true'' else ''false'')"
| "json_text (JInt i) = str_int i"
| "json_text (JStr s) = quote s"
| "json_text (JArr xs) = ''['' @ join '', '' (map json_text xs) @ '']''"
| "json_text (JObj kvs) =
     ''{'' @ join '', '' (map (\<lambda>(k, v). quote k @ '': '' @ json_text v) kvs) @ ''}''"

definition json_dumps :: "json \<Rightarrow> exn + bytes" where
  "json_dumps document = Inr (bytes_of (json_text document))"

fun utf8_decode :: "bytes \<Rightarrow> string option" where
  "utf8_decode [] = Some []"
| "utf8_decode [b] = (if unat b < 128 then Some [char_of (unat b)] else None)"
| "utf8_decode (b # b' # bs) =
     (if unat b < 128 then map_option ((#) (char_of (unat b))) (utf8_decode (b' # bs))
      else if (unat b = 194 \<or> unat b = 195) \<and> 128 \<le> unat b' \<and> unat b' < 192
      then map_option ((#) (char_of ((unat b - 192) * 64 + (unat b' - 128)))) (utf8_decode bs)
      else None)"

definition is_ws :: "char \<Rightarrow> bool" where
  "is_ws c \<longleftrightarrow> c = CHR '' '' \<or> c = CHR 0x09 \<or> c = CHR 0x0A \<or> c = CHR 0x0D"

definition skip_ws :: "string \<Rightarrow> string" where
  "skip_ws = dropWhile is_ws"

definition is_digit :: "char \<Rightarrow> bool" where
  "is_digit c \<longleftrightarrow> (48::nat) \<le> of_char c \<and> (of_char c :: nat) \<le> 57"

definition hex_val :: "char \<Rightarrow> nat option" where
  "hex_val c =
     (let n = of_char c in
      if 48 \<le> n \<and> n \<le> 57 then Some (n - 48)
      else if 97 \<le> n \<and> n \<le> 102 then Some (n - 87)
      else if 65 \<le> n \<and> n \<le> 70 then Some (n - 55)
      else None)"

definition hex4 :: "string \<Rightarrow> nat option" where
  "hex4 s =
     (case map hex_val s of
        [Some a, Some b, Some c, Some d] \<Rightarrow> Some (((a * 16 + b) * 16 + c) * 16 + d)
      | other \<Rightarrow> None)"

definition unescape :: "char \<Rightarrow> char option" where
  "unescape e =
     (if e = CHR 0x22 \<or> e = CHR 0x5C \<or> e = CHR ''/'' then Some e
      else if e = CHR ''n'' then Some (CHR 0x0A)
      else if e = CHR ''r'' then Some (CHR 0x0D)
      else if e = CHR ''t'' then Some (CHR 0x09)
      else if e = CHR ''b'' then Some (CHR 0x08)
      else if e = CHR ''f'' then Some (CHR 0x0C)
      else None)"

fun scan_string :: "string \<Rightarrow> string \<Rightarrow> (string \<times> string) option" where
  "scan_string acc [] = None"
| "scan_string acc (c # cs) =
     (if c = CHR 0x22 then Some (rev acc, cs)
      else if c = CHR 0x5C then
        (case cs of
           [] \<Rightarrow> None
         | e # r \<Rightarrow>
             if e = CHR ''u'' then
               (case hex4 (take 4 r) of
                  None \<Rightarrow> None
                | Some n \<Rightarrow> if n < 256 then scan_string (char_of n # acc) (drop 4 r) else None)
             else (case unescape e of None \<Rightarrow> None | Some x \<Rightarrow> scan_string (x # acc) r))
      else if (of_char c :: nat) < 32 then None
      else scan_string (c # acc) cs)"

definition scan_int :: "string \<Rightarrow> (int \<times> string) option" where
  "scan_int s =
     (let neg = (take 1 s = ''-'');
          s1 = (if neg then drop 1 s else s);
          ds = takeWhile is_digit s1;
          rest = dropWhile is_digit s1
      in if ds = [] \<or> (1 < length ds \<and> take 1 ds = ''0'')
            \<or> take 1 rest = ''.'' \<or> take 1 rest = ''e'' \<or> take 1 rest = ''E''
         then None
         else Some ((if neg then - 1 else 1)
                      * int (foldl (\<lambda>n c. 10 * n + (of_char c - 48)) 0 ds), rest))"

definition dict_set :: "dict \<Rightarrow> string \<Rightarrow> json \<Rightarrow> dict" where
  "dict_set d k v =
     (if k \<in> fst ` set d then map (\<lambda>(k', v'). if k' = k then (k', v) else (k', v')) d
      else d @ [(k, v)])"

fun parse_value :: "nat \<Rightarrow> string \<Rightarrow> (json \<times> string) option"
  and parse_elements :: "nat \<Rightarrow> json list \<Rightarrow> string \<Rightarrow> (json list \<times> string) option"
  and parse_members :: "nat \<Rightarrow> dict \<Rightarrow> string \<Rightarrow> (dict \<times> string) option" where
  "parse_value 0 s = None"
| "parse_value (Suc fuel) s =
     (case skip_ws s of
        [] \<Rightarrow> None
      | c # r \<Rightarrow>
          if c = CHR ''n'' then (if take 3 r = ''ull'' then Some (JNull, drop 3 r) else None)
          else if c = CHR ''t'' then (if take 3 r = ''rue'' then Some (JBool True, drop 3 r) else None)
          else if c = CHR ''f'' then (if take 4 r = ''alse'' then Some (JBool False, drop 4 r) else None)
          else if c = CHR 0x22 then map_option (\<lambda>(x, r'). (JStr x, r')) (scan_string [] r)
          else if c = CHR ''['' then
            (if take 1 (skip_ws r) = '']'' then Some (JArr [], drop 1 (skip_ws r))
             else map_option (\<lambda>(xs, r'). (JArr xs, r')) (parse_elements fuel [] r))
          else if c = CHR ''{'' then
            (if take 1 (skip_ws r) = ''}'' then Some (JObj [], drop 1 (skip_ws r))
             else map_option (\<lambda>(kvs, r'). (JObj kvs, r')) (parse_members fuel [] r))
          else map_option (\<lambda>(i, r'). (JInt i, r')) (scan_int (c # r)))"
| "parse_elements 0 acc s = None"
| "parse_elements (Suc fuel) acc s =
     (case parse_value fuel s of
        None \<Rightarrow> None
      | Some (v, r) \<Rightarrow>
          if take 1 (skip_ws r) = '','' then parse_elements fuel (acc @ [v]) (drop 1 (skip_ws r))
          else if take 1 (skip_ws r) = '']'' then Some (acc @ [v], drop 1 (skip_ws r))
          else None)"
| "parse_members 0 acc s = None"
| "parse_members (Suc fuel) acc s =
     (if take 1 (skip_ws s) = [CHR 0x22] then
        (case scan_string [] (drop 1 (skip_ws s)) of
           None \<Rightarrow> None
         | Some (k, r) \<Rightarrow>
             if take 1 (skip_ws r) = '':'' then
               (case parse_value fuel (drop 1 (skip_ws r)) of
                  None \<Rightarrow> None
                | Some (v, r') \<Rightarrow>
                    if take 1 (skip_ws r') = '','' then
                      parse_members fuel (dict_set acc k v) (drop 1 (skip_ws r'))
                    else if take 1 (skip_ws r') = ''}'' then
                      Some (dict_set acc k v, drop 1 (skip_ws r'))
                    else None)
             else None)
      else None)"

definition json_loads :: "bytes \<Rightarrow> exn + json" where
  "json_loads data =
     (case utf8_decode data of
        None \<Rightarrow> Inl (Exn UnicodeDecodeError ''invalid utf-8'')
      | Some s \<Rightarrow>
          (case parse_value (Suc (length s)) s of
             None \<Rightarrow> Inl (Exn JSONDecodeError ''invalid JSON'')
           | Some (v, r) \<Rightarrow>
               if skip_ws r = [] then Inr v else Inl (Exn JSONDecodeError ''Extra data'')))"

definition py_json :: codec where
  "py_json = \<lparr>dumps = json_dumps, loads = json_loads\<rparr>"

text \<open>
  Notions about JSON texts.  A string is \<open>ascii\<close> when \<^verbatim>\<open>encode("utf-8")\<close> gives one byte for
  each of its characters.  \<open>delim\<close> holds of what may follow a value in a text: nothing, a
  comma or a closing bracket.  \<open>weight\<close> bounds the recursion depth the parser needs for a
  document.  An association list stands for a \<^verbatim>\<open>dict\<close> when its keys are distinct, a \<^verbatim>\<open>dict\<close>
  holding each key once; \<open>distinct_keys\<close> says so of every object inside a document.
\<close>

definition ascii :: "string \<Rightarrow> bool" where
  "ascii s \<longleftrightarrow> (\<forall>c\<in>set s. (of_char c :: nat) < 128)"





section \<open>Notions used to state the properties\<close>

subsection \<open>Reading a trace\<close>

text \<open>The events a run added to the trace, the run going from \<open>w\<close> to \<open>w'\<close>.\<close>

definition new_events :: "world \<Rightarrow> world \<Rightarrow> event list" where
  "new_events w w' = drop (length (trace w)) (trace w')"

text \<open>
  The \<open>k\<close>-th dial from now on fails with an error that \<^verbatim>\<open>connect\<close> retries.
\<close>

definition dial_fails :: "world \<Rightarrow> nat \<Rightarrow> bool" where
  "dial_fails w k = (case network w (dialled w + k) of Refused e \<Rightarrow> is_OSError (cls e) | Connected r wr \<Rightarrow> False)"

text \<open>What one failed attempt of \<^verbatim>\<open>connect\<close> adds to the trace.\<close>

definition failed_dial_events :: "int \<Rightarrow> rat \<Rightarrow> nat \<Rightarrow> event list" where
  "failed_dial_events rc rt attempt =
     [Log INFO, Dial, Log WARNING] @ (if int attempt < rc - 1 then [Log INFO, Sleep rt] else [])"

text \<open>Dials and sleeps, the events the retry policy is about.\<close>

fun is_net_event :: "event \<Rightarrow> bool" where
  "is_net_event Dial = True"
| "is_net_event (Sleep d) = True"
| "is_net_event _ = False"

text \<open>\<open>n\<close> dials with a sleep of \<open>d\<close> between consecutive ones and none after the last.\<close>

definition retry_pattern :: "nat \<Rightarrow> rat \<Rightarrow> event list" where
  "retry_pattern n d = (if n = 0 then [] else concat (replicate (n - 1) [Dial, Sleep d]) @ [Dial])"

text \<open>
  The lock as a trace shows it: whether it is held after the events, and whether every
  socket operation (dial, write, read, close) happens while it is held, the lock being
  taken only when free and released only when held.
\<close>

fun held_after :: "bool \<Rightarrow> event list \<Rightarrow> bool" where
  "held_after h [] = h"
| "held_after h (Acquire # es) = held_after True es"
| "held_after h (Release # es) = held_after False es"
| "held_after h (e # es) = held_after h es"


text \<open>
  The outer loop of \<^verbatim>\<open>send_request\<close> as a trace shows it: the lock events, and the sleeps
  made while the lock is free.
\<close>

fun outer_events :: "bool \<Rightarrow> event list \<Rightarrow> event list" where
  "outer_events h [] = []"
| "outer_events h (Acquire # es) = Acquire # outer_events True es"
| "outer_events h (Release # es) = Release # outer_events False es"
| "outer_events h (Sleep d # es) = (if h then outer_events h es else Sleep d # outer_events h es)"
| "outer_events h (e # es) = outer_events h es"

text \<open>
  \<open>n\<close> locked attempts with a sleep of \<open>d\<close> between consecutive ones and none after the
  last.
\<close>

definition attempt_pattern :: "nat \<Rightarrow> rat \<Rightarrow> event list" where
  "attempt_pattern n d =
     (if n = 0 then [] else concat (replicate (n - 1) [Acquire, Release, Sleep d]) @ [Acquire, Release])"

text \<open>
  A connection on which the exchange of \<open>request\<close> fails with an error of the transport
  family, and surroundings in which nothing else can be had: every dial from now on is
  refused with an error \<^verbatim>\<open>connect\<close> retries or gives such a connection, and the connection
  held now, if any, is one.
\<close>

definition doomed :: "codec \<Rightarrow> dict \<Rightarrow> stream_reader \<Rightarrow> stream_writer \<Rightarrow> bool" where
  "doomed cd request r wr =
     (case exchange cd request r wr of
        (Inl e, rest) \<Rightarrow> is_transport (cls e)
      | (Inr response, rest) \<Rightarrow> False)"

definition dial_hostile :: "codec \<Rightarrow> dict \<Rightarrow> dial_result \<Rightarrow> bool" where
  "dial_hostile cd request d =
     (case d of Refused e \<Rightarrow> is_OSError (cls e) | Connected r wr \<Rightarrow> doomed cd request r wr)"

definition hostile :: "codec \<Rightarrow> dict \<Rightarrow> world \<Rightarrow> bool" where
  "hostile cd request w \<longleftrightarrow>
     (\<forall>k. dial_hostile cd request (network w (dialled w + k))) \<and>
     (case (writer w, reader w) of
        (Some wr, Some r) \<Rightarrow> doomed cd request r wr
      | other \<Rightarrow> True)"

text \<open>Events that neither take nor release the lock.\<close>

definition no_lock_events :: "event list \<Rightarrow> bool" where
  "no_lock_events evs \<longleftrightarrow> Acquire \<notin> set evs \<and> Release \<notin> set evs"

text \<open>
  The error a call that gives up names last.  \<open>exchange_text\<close> is \<^verbatim>\<open>str(e)\<close> of the exception
  the exchange of the request raises on a connection.  For a call that went from \<open>w\<close> to
  \<open>w'\<close>: when it dialled, the last dial it made decides, a refused one giving the note
  \<^verbatim>\<open>"Failed to connect"\<close> of a failed \<^verbatim>\<open>connect\<close> and a connection the error of the exchange on
  it; when it never dialled, it is the error of the exchange on the connection held at the
  start.
\<close>

definition exchange_text :: "codec \<Rightarrow> dict \<Rightarrow> stream_reader \<Rightarrow> stream_writer \<Rightarrow> string" where
  "exchange_text cd request r wr =
     (case exchange cd request r wr of
        (Inl e, rest) \<Rightarrow> str_of e
      | (Inr response, rest) \<Rightarrow> [])"

definition last_failure :: "codec \<Rightarrow> dict \<Rightarrow> world \<Rightarrow> world \<Rightarrow> string" where
  "last_failure cd request w w' =
     (if dialled w' = dialled w
      then (case (writer w, reader w) of
              (Some wr, Some r) \<Rightarrow> exchange_text cd request r wr
            | other \<Rightarrow> ''Failed to connect'')
      else (case network w (dialled w' - 1) of
              Refused e \<Rightarrow> ''Failed to connect''
            | Connected r wr \<Rightarrow> exchange_text cd request r wr))"

text \<open>What one failed attempt of \<^verbatim>\<open>send_request\<close> shows of the lock and the sleep after it.\<close>

definition outer_attempt_events :: "int \<Rightarrow> rat \<Rightarrow> nat \<Rightarrow> event list" where
  "outer_attempt_events rc rt attempt =
     [Acquire, Release] @ (if int attempt < rc - 1 then [Sleep rt] else [])"

subsection \<open>Concrete surroundings\<close>

text \<open>
  A client as \<^verbatim>\<open>run_server\<close> creates it, a dial that is refused, and a connection on
  which nothing has happened yet.
\<close>

definition refused :: dial_result where
  "refused = Refused (Exn ConnectionRefusedError ''Connection refused'')"

definition idle_reader :: stream_reader where
  "idle_reader = \<lparr>buffered = [], broken = None\<rparr>"

definition idle_writer :: stream_writer where
  "idle_writer = \<lparr>written = [], drains = []\<rparr>"

definition fresh_client :: "rat \<Rightarrow> int \<Rightarrow> (nat \<Rightarrow> dial_result) \<Rightarrow> world" where
  "fresh_client rt rc net =
     \<lparr>host = ''localhost'', port = 21088, retry_time = rt, retry_count = rc,
      reader = None, writer = None, network = net, dialled = 0, trace = []\<rparr>"

text \<open>
  The request and the reply of the successful exchange the specification describes, the
  frame of a document as \<^verbatim>\<open>send_request\<close> builds it, a backend that answers every connection
  with given bytes, a client whose open connection is reset at its first \<^verbatim>\<open>drain\<close>, and a
  complete frame whose payload is not JSON.
\<close>

definition tools_list_request :: dict where
  "tools_list_request =
     [(''jsonrpc'', JStr ''2.0''), (''id'', JStr ''t''), (''method'', JStr ''tools/list''),
      (''params'', JObj [])]"


definition frame_of :: "json \<Rightarrow> bytes" where
  "frame_of document = (case encode_frame py_json document of Inr frame \<Rightarrow> frame | Inl e \<Rightarrow> [])"

definition replying :: "bytes \<Rightarrow> dial_result" where
  "replying data = Connected \<lparr>buffered = data, broken = None\<rparr> idle_writer"

definition reset_once :: "rat \<Rightarrow> int \<Rightarrow> (nat \<Rightarrow> dial_result) \<Rightarrow> world" where
  "reset_once rt rc net =
     (fresh_client rt rc net)
       \<lparr>reader := Some idle_reader,
        writer := Some \<lparr>written = [], drains = [Some (Exn ConnectionResetError ''Reset'')]\<rparr>\<rparr>"

definition garbled :: bytes where
  "garbled = [0, 0, 0, 4] @ bytes_of ''oops''"

text \<open>A client that holds an open connection.\<close>

definition connected_client ::
  "rat \<Rightarrow> int \<Rightarrow> (nat \<Rightarrow> dial_result) \<Rightarrow> stream_reader \<Rightarrow> stream_writer \<Rightarrow> world" where
  "connected_client rt rc net r wr = (fresh_client rt rc net)\<lparr>reader := Some r, writer := Some wr\<rparr>"

text \<open>
  The library as it meets a request that holds a value it cannot serialize:
  \<^verbatim>\<open>json.dumps\<close> raises \<^verbatim>\<open>TypeError\<close>.
\<close>

definition unserializable :: codec where
  "unserializable =
     py_json\<lparr>dumps := (\<lambda>document. Inl (Exn TypeError ''Object of type set is not JSON serializable''))\<rparr>"

text \<open>\<^verbatim>\<open>response["error"]["code"]\<close> of what a call returned, \<open>JNull\<close> when there is none.\<close>

definition error_code_of :: "exn + json \<Rightarrow> json" where
  "error_code_of res =
     (case res of
        Inr (JObj response) \<Rightarrow>
          (case dict_get response ''error'' of JObj error \<Rightarrow> dict_get error ''code'' | other \<Rightarrow> JNull)
      | other \<Rightarrow> JNull)"

text \<open>A client whose open connection delivers the frame with the payload \<^verbatim>\<open>oops\<close>.\<close>

definition garbled_client :: world where
  "garbled_client =
     connected_client 0 2 (\<lambda>k. refused) \<lparr>buffered = garbled, broken = None\<rparr> idle_writer"


section \<open>The handlers of the upstream server\<close>

subsection \<open>Python operations on parsed JSON\<close>

text \<open>
  A handler receives whatever \<^verbatim>\<open>json.loads\<close> gave, so each operation is modelled on every kind
  of JSON value, with the exception Python raises where the value does not support it.
\<close>

definition bindE :: "exn + 'a \<Rightarrow> ('a \<Rightarrow> exn + 'b) \<Rightarrow> exn + 'b" where
  "bindE x f = (case x of Inl e \<Rightarrow> Inl e | Inr v \<Rightarrow> f v)"

text \<open>A list comprehension: it stops at the first exception.\<close>

fun mapE :: "('a \<Rightarrow> exn + 'b) \<Rightarrow> 'a list \<Rightarrow> exn + 'b list" where
  "mapE f [] = Inr []"
| "mapE f (x # xs) = bindE (f x) (\<lambda>y. bindE (mapE f xs) (\<lambda>ys. Inr (y # ys)))"

fun is_substring :: "string \<Rightarrow> string \<Rightarrow> bool" where
  "is_substring k [] = (k = [])"
| "is_substring k (c # cs) = (take (length k) (c # cs) = k \<or> is_substring k cs)"

text \<open>\<^verbatim>\<open>k in x\<close> for a string \<open>k\<close>.\<close>

definition py_in :: "string \<Rightarrow> json \<Rightarrow> exn + bool" where
  "py_in k x =
     (case x of
        JObj d \<Rightarrow> Inr (k \<in> set (map fst d))
      | JArr xs \<Rightarrow> Inr (JStr k \<in> set xs)
      | JStr s \<Rightarrow> Inr (is_substring k s)
      | other \<Rightarrow> Inl (Exn TypeError ''argument is not iterable''))"

text \<open>\<^verbatim>\<open>x.get(k, default)\<close>.\<close>

definition py_get :: "json \<Rightarrow> string \<Rightarrow> json \<Rightarrow> exn + json" where
  "py_get x k dflt =
     (case x of
        JObj d \<Rightarrow> Inr (dict_get_default d k dflt)
      | other \<Rightarrow> Inl (Exn AttributeError ''object has no attribute get''))"

text \<open>\<^verbatim>\<open>x[k]\<close> for a string \<open>k\<close>.\<close>

definition py_item :: "json \<Rightarrow> string \<Rightarrow> exn + json" where
  "py_item x k =
     (case x of
        JObj d \<Rightarrow> (case map_of d k of Some v \<Rightarrow> Inr v | None \<Rightarrow> Inl (Exn KeyError k))
      | other \<Rightarrow> Inl (Exn TypeError ''indices must be integers or the object is not subscriptable''))"

text \<open>\<^verbatim>\<open>x[0]\<close>.\<close>

definition py_first :: "json \<Rightarrow> exn + json" where
  "py_first x =
     (case x of
        JArr xs \<Rightarrow> (case xs of [] \<Rightarrow> Inl (Exn IndexError ''list index out of range'') | y # ys \<Rightarrow> Inr y)
      | JStr s \<Rightarrow> (case s of [] \<Rightarrow> Inl (Exn IndexError ''string index out of range'') | c # cs \<Rightarrow> Inr (JStr [c]))
      | JObj d \<Rightarrow> Inl (Exn KeyError ''0'')
      | other \<Rightarrow> Inl (Exn TypeError ''object is not subscriptable''))"

text \<open>The truth value of \<open>x\<close> in a condition.\<close>

definition py_truthy :: "json \<Rightarrow> bool" where
  "py_truthy x =
     (case x of
        JNull \<Rightarrow> False
      | JBool b \<Rightarrow> b
      | JInt i \<Rightarrow> i \<noteq> 0
      | JStr s \<Rightarrow> s \<noteq> []
      | JArr xs \<Rightarrow> xs \<noteq> []
      | JObj d \<Rightarrow> d \<noteq> [])"

text \<open>\<^verbatim>\<open>for item in x\<close>: the elements of a list, the keys of a dict, the characters of a string.\<close>

definition py_iter :: "json \<Rightarrow> exn + json list" where
  "py_iter x =
     (case x of
        JArr xs \<Rightarrow> Inr xs
      | JObj d \<Rightarrow> Inr (map (\<lambda>(k, v). JStr k) d)
      | JStr s \<Rightarrow> Inr (map (\<lambda>c. JStr [c]) s)
      | other \<Rightarrow> Inl (Exn TypeError ''object is not iterable''))"

text \<open>
  \<^verbatim>\<open>f"{x}"\<close>: a string stands for itself; what \<^verbatim>\<open>str\<close> prints for the other values is the
  parameter \<open>fmt\<close>.
\<close>

definition py_format :: "(json \<Rightarrow> string) \<Rightarrow> json \<Rightarrow> string" where
  "py_format fmt x = (case x of JStr s \<Rightarrow> s | other \<Rightarrow> fmt other)"

subsection \<open>Objects of the protocol library\<close>

text \<open>
  The classes of \<^verbatim>\<open>mcp.types\<close> are not code of the bridge.  An object of the library is the
  name of its class with the keyword arguments the handler passed; whether the library
  accepts them is the parameter \<open>validate\<close>, and a refusal is a \<^verbatim>\<open>ValidationError\<close>.
\<close>

datatype pyval = Json json | Obj string "(string \<times> pyval) list" | Seq "pyval list"

definition construct ::
  "(string \<Rightarrow> (string \<times> pyval) list \<Rightarrow> bool) \<Rightarrow> string \<Rightarrow> (string \<times> pyval) list \<Rightarrow> exn + pyval" where
  "construct validate class_name kwargs =
     (if validate class_name kwargs then Inr (Obj class_name kwargs)
      else Inl (Exn ValidationError class_name))"

text \<open>\<^verbatim>\<open>types.TextContent(type="text", text=...)\<close>.\<close>

definition text_content :: "(string \<Rightarrow> (string \<times> pyval) list \<Rightarrow> bool) \<Rightarrow> json \<Rightarrow> exn + pyval" where
  "text_content validate text =
     construct validate ''TextContent'' [(''type'', Json (JStr ''text'')), (''text'', Json text)]"

text \<open>The library accepts a text item that holds a string.\<close>

definition accepts_text :: "(string \<Rightarrow> (string \<times> pyval) list \<Rightarrow> bool) \<Rightarrow> string \<Rightarrow> bool" where
  "accepts_text validate s \<longleftrightarrow>
     validate ''TextContent'' [(''type'', Json (JStr ''text'')), (''text'', Json (JStr s))]"

subsection \<open>The requests\<close>

definition rpc_request :: "string \<Rightarrow> string \<Rightarrow> json \<Rightarrow> dict" where
  "rpc_request request_id method params =
     [(''jsonrpc'', JStr ''2.0''), (''id'', JStr request_id), (''method'', JStr method),
      (''params'', params)]"

text \<open>\<^verbatim>\<open>f"Error: {error.get('message', 'Unknown error')}"\<close> for \<^verbatim>\<open>error = response["error"]\<close>.\<close>

definition error_text :: "(json \<Rightarrow> string) \<Rightarrow> json \<Rightarrow> exn + string" where
  "error_text fmt response =
     bindE (py_item response ''error'')
       (\<lambda>error. bindE (py_get error ''message'' (JStr ''Unknown error''))
          (\<lambda>message. Inr (''Error: '' @ py_format fmt message)))"

subsection \<open>The handlers\<close>

text \<open>
  Every handler awaits \<^verbatim>\<open>unity_client.send_request\<close> and works on the response; an exception
  of \<^verbatim>\<open>send_request\<close> leaves the handler.
\<close>

definition after_request ::
  "codec \<Rightarrow> dict \<Rightarrow> world \<Rightarrow> (json \<Rightarrow> world \<Rightarrow> (exn + 'a) \<times> world) \<Rightarrow> (exn + 'a) \<times> world" where
  "after_request cd request w k =
     (case send_request cd request w of
        (Inl e, w') \<Rightarrow> (Inl e, w')
      | (Inr response, w') \<Rightarrow> k response w')"

text \<open>
  The shape the three listing handlers share: on \<^verbatim>\<open>"error" in response\<close> the error is logged
  and the empty list returned, else the items of the result are converted.
\<close>

definition listing ::
  "codec \<Rightarrow> dict \<Rightarrow> (json \<Rightarrow> exn + pyval list) \<Rightarrow> world \<Rightarrow> (exn + pyval list) \<times> world" where
  "listing cd request convert w =
     after_request cd request w
       (\<lambda>response w'.
          case py_in ''error'' response of
            Inl e \<Rightarrow> (Inl e, w')
          | Inr has_error \<Rightarrow>
              if has_error
              then (case py_item response ''error'' of
                      Inl e \<Rightarrow> (Inl e, w')
                    | Inr error \<Rightarrow> (Inr [], emit (Log ERROR) w'))
              else (convert response, w'))"

text \<open>
  \<^verbatim>\<open>[convert(x) for x in response.get("result", {}).get(key, [])]\<close>.
\<close>

definition result_items :: "string \<Rightarrow> (json \<Rightarrow> exn + pyval) \<Rightarrow> json \<Rightarrow> exn + pyval list" where
  "result_items key convert response =
     bindE (py_get response ''result'' (JObj []))
       (\<lambda>result. bindE (py_get result key (JArr []))
          (\<lambda>items. bindE (py_iter items) (mapE convert)))"

definition tool_of :: "(string \<Rightarrow> (string \<times> pyval) list \<Rightarrow> bool) \<Rightarrow> json \<Rightarrow> exn + pyval" where
  "tool_of validate tool =
     bindE (py_item tool ''name'')
       (\<lambda>name. bindE (py_get tool ''description'' (JStr ''''))
          (\<lambda>description. bindE (py_get tool ''inputSchema'' (JObj [(''type'', JStr ''object'')]))
             (\<lambda>inputSchema.
                construct validate ''Tool''
                  [(''name'', Json name), (''description'', Json description),
                   (''inputSchema'', Json inputSchema)])))"

definition list_tools ::
  "(string \<Rightarrow> (string \<times> pyval) list \<Rightarrow> bool) \<Rightarrow> codec \<Rightarrow> world \<Rightarrow> (exn + pyval list) \<times> world" where
  "list_tools validate cd w =
     listing cd (rpc_request ''list_tools'' ''tools/list'' (JObj []))
       (result_items ''tools'' (tool_of validate)) w"

definition argument_of :: "(string \<Rightarrow> (string \<times> pyval) list \<Rightarrow> bool) \<Rightarrow> json \<Rightarrow> exn + pyval" where
  "argument_of validate arg =
     bindE (py_item arg ''name'')
       (\<lambda>name. bindE (py_get arg ''description'' JNull)
          (\<lambda>description. bindE (py_get arg ''required'' (JBool False))
             (\<lambda>required.
                construct validate ''PromptArgument''
                  [(''name'', Json name), (''description'', Json description),
                   (''required'', Json required)])))"

definition prompt_of :: "(string \<Rightarrow> (string \<times> pyval) list \<Rightarrow> bool) \<Rightarrow> json \<Rightarrow> exn + pyval" where
  "prompt_of validate prompt =
     bindE (py_item prompt ''name'')
       (\<lambda>name. bindE (py_get prompt ''description'' JNull)
          (\<lambda>description. bindE (py_get prompt ''arguments'' (JArr []))
             (\<lambda>args. bindE (py_iter args)
                (\<lambda>items. bindE (mapE (argument_of validate) items)
                   (\<lambda>arguments.
                      construct validate ''Prompt''
                        [(''name'', Json name), (''description'', Json description),
                         (''arguments'', Seq arguments)])))))"

definition list_prompts ::
  "(string \<Rightarrow> (string \<times> pyval) list \<Rightarrow> bool) \<Rightarrow> codec \<Rightarrow> world \<Rightarrow> (exn + pyval list) \<times> world" where
  "list_prompts validate cd w =
     listing cd (rpc_request ''list_prompts'' ''prompts/list'' (JObj []))
       (result_items ''prompts'' (prompt_of validate)) w"

definition resource_of :: "(string \<Rightarrow> (string \<times> pyval) list \<Rightarrow> bool) \<Rightarrow> json \<Rightarrow> exn + pyval" where
  "resource_of validate res =
     bindE (py_item res ''uri'')
       (\<lambda>uri. bindE (py_get res ''name'' (JStr ''''))
          (\<lambda>name. bindE (py_get res ''description'' JNull)
             (\<lambda>description. bindE (py_get res ''mimeType'' JNull)
                (\<lambda>mimeType.
                   construct validate ''Resource''
                     [(''uri'', Json uri), (''name'', Json name),
                      (''description'', Json description), (''mimeType'', Json mimeType)]))))"

definition list_resources ::
  "(string \<Rightarrow> (string \<times> pyval) list \<Rightarrow> bool) \<Rightarrow> codec \<Rightarrow> world \<Rightarrow> (exn + pyval list) \<times> world" where
  "list_resources validate cd w =
     listing cd (rpc_request ''list_resources'' ''resources/list'' (JObj []))
       (result_items ''resources'' (resource_of validate)) w"

text \<open>The loop of \<^verbatim>\<open>call_tool\<close> over the content items: an item of another type is skipped.\<close>

fun content_items :: "(string \<Rightarrow> (string \<times> pyval) list \<Rightarrow> bool) \<Rightarrow> json list \<Rightarrow> exn + pyval list" where
  "content_items validate [] = Inr []"
| "content_items validate (item # rest) =
     bindE (py_get item ''type'' JNull)
       (\<lambda>item_type.
          if item_type = JStr ''text'' then
            bindE (py_get item ''text'' (JStr ''''))
              (\<lambda>text. bindE (text_content validate text)
                 (\<lambda>c. bindE (content_items validate rest) (\<lambda>cs. Inr (c # cs))))
          else if item_type = JStr ''image'' then
            bindE (py_get item ''data'' (JStr ''''))
              (\<lambda>data. bindE (py_get item ''mimeType'' (JStr ''image/png''))
                 (\<lambda>mimeType.
                    bindE (construct validate ''ImageContent''
                             [(''type'', Json (JStr ''image'')), (''data'', Json data),
                              (''mimeType'', Json mimeType)])
                      (\<lambda>c. bindE (content_items validate rest) (\<lambda>cs. Inr (c # cs)))))
          else if item_type = JStr ''resource'' then
            bindE (py_get item ''resource'' (JObj []))
              (\<lambda>resource. bindE (py_get resource ''uri'' (JStr ''''))
                 (\<lambda>uri. bindE (py_get resource ''mimeType'' JNull)
                    (\<lambda>mimeType. bindE (py_get resource ''text'' (JStr ''''))
                       (\<lambda>text.
                          bindE (construct validate ''TextResourceContents''
                                   [(''uri'', Json uri), (''mimeType'', Json mimeType),
                                    (''text'', Json text)])
                            (\<lambda>inner.
                               bindE (construct validate ''EmbeddedResource''
                                        [(''type'', Json (JStr ''resource'')),
                                         (''resource'', inner)])
                                 (\<lambda>c. bindE (content_items validate rest)
                                    (\<lambda>cs. Inr (c # cs))))))))
          else content_items validate rest)"

definition call_tool_result ::
  "(string \<Rightarrow> (string \<times> pyval) list \<Rightarrow> bool) \<Rightarrow> (json \<Rightarrow> string) \<Rightarrow> json \<Rightarrow> exn + pyval list" where
  "call_tool_result validate fmt response =
     bindE (py_in ''error'' response)
       (\<lambda>has_error.
          if has_error
          then bindE (error_text fmt response)
                 (\<lambda>t. bindE (text_content validate (JStr t)) (\<lambda>c. Inr [c]))
          else bindE (py_get response ''result'' (JObj []))
                 (\<lambda>result. bindE (py_get result ''content'' (JArr []))
                    (\<lambda>content. bindE (py_iter content)
                       (\<lambda>items. bindE (content_items validate items)
                          (\<lambda>mcp_content.
                             if mcp_content \<noteq> [] then Inr mcp_content
                             else bindE (text_content validate (JStr ''No content returned''))
                                    (\<lambda>c. Inr [c]))))))"

definition call_tool ::
  "(string \<Rightarrow> (string \<times> pyval) list \<Rightarrow> bool) \<Rightarrow> (json \<Rightarrow> string) \<Rightarrow> codec \<Rightarrow> string \<Rightarrow> dict \<Rightarrow> world
     \<Rightarrow> (exn + pyval list) \<times> world" where
  "call_tool validate fmt cd name arguments w =
     after_request cd
       (rpc_request (''call_tool_'' @ name) ''tools/call''
          (JObj [(''name'', JStr name), (''arguments'', JObj arguments)])) w
       (\<lambda>response w'. (call_tool_result validate fmt response, w'))"

definition message_of :: "(string \<Rightarrow> (string \<times> pyval) list \<Rightarrow> bool) \<Rightarrow> json \<Rightarrow> exn + pyval" where
  "message_of validate msg =
     bindE (py_item msg ''role'')
       (\<lambda>role. bindE (py_get msg ''content'' (JObj []))
          (\<lambda>content. bindE (py_get content ''text'' (JStr ''''))
             (\<lambda>text. bindE (text_content validate text)
                (\<lambda>c. construct validate ''PromptMessage''
                          [(''role'', Json role), (''content'', c)]))))"

definition get_prompt_result ::
  "(string \<Rightarrow> (string \<times> pyval) list \<Rightarrow> bool) \<Rightarrow> (json \<Rightarrow> string) \<Rightarrow> json \<Rightarrow> exn + pyval" where
  "get_prompt_result validate fmt response =
     bindE (py_in ''error'' response)
       (\<lambda>has_error.
          if has_error
          then bindE (error_text fmt response)
                 (\<lambda>t. construct validate ''GetPromptResult''
                          [(''description'', Json (JStr t)), (''messages'', Seq [])])
          else bindE (py_get response ''result'' (JObj []))
                 (\<lambda>result. bindE (py_get result ''messages'' (JArr []))
                    (\<lambda>messages. bindE (py_get result ''description'' JNull)
                       (\<lambda>description. bindE (py_iter messages)
                          (\<lambda>items. bindE (mapE (message_of validate) items)
                             (\<lambda>msgs. construct validate ''GetPromptResult''
                                        [(''description'', Json description),
                                         (''messages'', Seq msgs)]))))))"

definition get_prompt ::
  "(string \<Rightarrow> (string \<times> pyval) list \<Rightarrow> bool) \<Rightarrow> (json \<Rightarrow> string) \<Rightarrow> codec \<Rightarrow> string \<Rightarrow> dict option
     \<Rightarrow> world \<Rightarrow> (exn + pyval) \<times> world" where
  "get_prompt validate fmt cd name arguments w =
     after_request cd
       (rpc_request (''get_prompt_'' @ name) ''prompts/get''
          (JObj [(''name'', JStr name),
                 (''arguments'', JObj (case arguments of None \<Rightarrow> [] | Some d \<Rightarrow> d))])) w
       (\<lambda>response w'. (get_prompt_result validate fmt response, w'))"

definition read_resource_result :: "(json \<Rightarrow> string) \<Rightarrow> json \<Rightarrow> exn + json" where
  "read_resource_result fmt response =
     bindE (py_in ''error'' response)
       (\<lambda>has_error.
          if has_error then bindE (error_text fmt response) (\<lambda>t. Inr (JStr t))
          else bindE (py_get response ''result'' (JObj []))
                 (\<lambda>result. bindE (py_get result ''contents'' (JArr []))
                    (\<lambda>contents.
                       if py_truthy contents
                       then bindE (py_first contents)
                              (\<lambda>first. bindE (py_in ''text'' first)
                                 (\<lambda>has_text. if has_text then py_item first ''text''
                                               else Inr (JStr '''')))
                       else Inr (JStr ''''))))"

definition read_resource ::
  "(json \<Rightarrow> string) \<Rightarrow> codec \<Rightarrow> string \<Rightarrow> world \<Rightarrow> (exn + json) \<times> world" where
  "read_resource fmt cd uri_str w =
     after_request cd
       (rpc_request (''read_resource_'' @ uri_str) ''resources/read''
          (JObj [(''uri'', JStr uri_str)])) w
       (\<lambda>response w'. (read_resource_result fmt response, w'))"

text \<open>The content items \<^verbatim>\<open>call_tool\<close> skips: dicts whose \<^verbatim>\<open>type\<close> is none of the three.\<close>

definition unrecognized :: "json \<Rightarrow> bool" where
  "unrecognized item =
     (case item of
        JObj d \<Rightarrow> dict_get d ''type'' \<noteq> JStr ''text'' \<and> dict_get d ''type'' \<noteq> JStr ''image''
                   \<and> dict_get d ''type'' \<noteq> JStr ''resource''
      | other \<Rightarrow> False)"

section \<open>The retry policy of \<^verbatim>\<open>connect\<close>\<close>

lemma connect_loop_all_fail:
  "\<forall>k<length as. dial_fails w k \<Longrightarrow>
   connect_loop as w =
     (Inr False, w\<lparr>dialled := dialled w + length as,
                   trace := trace w @ concat (map (failed_dial_events (retry_count w) (retry_time w)) as) @ [Log ERROR]\<rparr>)"
proof (induction as arbitrary: w)
  case Nil
  then show ?case by (simp add: emit_def)
next
  case (Cons a as)
  from Cons.prems have h0: "dial_fails w 0" by auto
  then obtain e where e: "network w (dialled w) = Refused e" "is_OSError (cls e)"
    by (auto simp: dial_fails_def split: dial_result.splits)
  let ?w' = "(if int a < retry_count w - 1
                  then emit (Sleep (retry_time w)) (emit (Log INFO) (emit (Log WARNING) (emit Dial (emit (Log INFO) w\<lparr>dialled := Suc (dialled w)\<rparr>))))
                  else emit (Log WARNING) (emit Dial (emit (Log INFO) w\<lparr>dialled := Suc (dialled w)\<rparr>)))"
  have step: "connect_loop (a # as) w = connect_loop as ?w'"
    using e by (simp add: open_connection_def emit_def)
  have fails: "\<forall>k<length as. dial_fails ?w' k"
    using Cons.prems by (auto simp: dial_fails_def emit_def)
  show ?case
    unfolding step Cons.IH [OF fails]
    by (simp add: emit_def failed_dial_events_def [of _ _ a])
qed

lemma connect_loop_success:
  "k < length as \<Longrightarrow> \<forall>j<k. dial_fails w j \<Longrightarrow> network w (dialled w + k) = Connected r wr \<Longrightarrow>
   connect_loop as w =
     (Inr True, w\<lparr>reader := Some r, writer := Some wr, dialled := dialled w + Suc k,
                  trace := trace w @ concat (map (failed_dial_events (retry_count w) (retry_time w)) (take k as))
                             @ [Log INFO, Dial, Log INFO]\<rparr>)"
proof (induction as arbitrary: w k)
  case Nil
  then show ?case by simp
next
  case (Cons a as)
  show ?case
  proof (cases k)
    case 0
    with Cons.prems show ?thesis
      by (simp add: open_connection_def emit_def)
  next
    case (Suc k')
    from Cons.prems Suc have h0: "dial_fails w 0" by auto
    then obtain e where e: "network w (dialled w) = Refused e" "is_OSError (cls e)"
      by (auto simp: dial_fails_def split: dial_result.splits)
    let ?w' = "(if int a < retry_count w - 1
                  then emit (Sleep (retry_time w)) (emit (Log INFO) (emit (Log WARNING) (emit Dial (emit (Log INFO) w\<lparr>dialled := Suc (dialled w)\<rparr>))))
                  else emit (Log WARNING) (emit Dial (emit (Log INFO) w\<lparr>dialled := Suc (dialled w)\<rparr>)))"
    have step: "connect_loop (a # as) w = connect_loop as ?w'"
      using e by (simp add: open_connection_def emit_def)
    have k': "k' < length as" using Cons.prems Suc by simp
    have fails: "\<forall>j<k'. dial_fails ?w' j"
      using Cons.prems Suc by (auto simp: dial_fails_def emit_def)
    have net: "network ?w' (dialled ?w' + k') = Connected r wr"
      using Cons.prems Suc by (simp add: emit_def)
    show ?thesis
      unfolding step Cons.IH [OF k' fails net] Suc
      by (simp add: emit_def failed_dial_events_def [of _ _ a])
  qed
qed

lemma connect_loop_dials:
  "connect_loop as w = (res, w') \<Longrightarrow>
   \<exists>evs. trace w' = trace w @ evs \<and> count_list evs Dial \<le> length as"
proof (induction as arbitrary: w)
  case Nil
  then show ?case by (auto simp: emit_def)
next
  case (Cons a as)
  show ?case
  proof (cases "network w (dialled w)")
    case (Connected r wr)
    with Cons.prems show ?thesis
      by (auto simp: open_connection_def emit_def)
  next
    case (Refused e)
    show ?thesis
    proof (cases "is_OSError (cls e)")
      case False
      with Refused Cons.prems show ?thesis
        by (auto simp: open_connection_def emit_def)
    next
      case True
      let ?w' = "(if int a < retry_count w - 1
                  then emit (Sleep (retry_time w)) (emit (Log INFO) (emit (Log WARNING) (emit Dial (emit (Log INFO) w\<lparr>dialled := Suc (dialled w)\<rparr>))))
                  else emit (Log WARNING) (emit Dial (emit (Log INFO) w\<lparr>dialled := Suc (dialled w)\<rparr>)))"
      have step: "connect_loop (a # as) w = connect_loop as ?w'"
        using Refused True by (simp add: open_connection_def emit_def)
      with Cons.prems have "connect_loop as ?w' = (res, w')" by simp
      from Cons.IH [OF this] obtain evs where
        evs: "trace w' = trace ?w' @ evs" "count_list evs Dial \<le> length as" by blast
      obtain pre where pre: "trace ?w' = trace w @ pre" "count_list pre Dial = 1"
        by (cases "int a < retry_count w - 1") (simp_all add: emit_def)
      have "trace w' = trace w @ (pre @ evs)" using evs pre by simp
      moreover have "count_list (pre @ evs) Dial \<le> length (a # as)"
        using evs pre by simp
      ultimately show ?thesis by blast
    qed
  qed
qed

lemma net_events_all_sleep:
  "\<forall>a\<in>set as. int a < rc - 1 \<Longrightarrow>
   filter is_net_event (concat (map (failed_dial_events rc rt) as)) =
     concat (replicate (length as) [Dial, Sleep rt])"
  by (induction as) (simp_all add: failed_dial_events_def)

lemma net_events_all_fail:
  "filter is_net_event (concat (map (failed_dial_events (int n) rt) [0..<n]) @ [Log ERROR]) =
     retry_pattern n rt"
proof (cases n)
  case 0
  then show ?thesis by (simp add: retry_pattern_def)
next
  case (Suc m)
  have "\<forall>a\<in>set [0..<m]. int a < int (Suc m) - 1" by simp
  from net_events_all_sleep [OF this, of rt]
  show ?thesis unfolding Suc
    by (simp add: retry_pattern_def failed_dial_events_def [of _ _ m])
qed

lemma net_events_success:
  "k < n \<Longrightarrow>
   filter is_net_event (concat (map (failed_dial_events (int n) rt) (take k [0..<n]))
       @ [Log INFO, Dial, Log INFO]) = retry_pattern (Suc k) rt"
proof -
  assume k: "k < n"
  then have t: "take k [0..<n] = [0..<k]" by simp
  have "\<forall>a\<in>set [0..<k]. int a < int n - 1" using k by auto
  from net_events_all_sleep [OF this, of rt] show ?thesis
    unfolding t by (simp add: retry_pattern_def)
qed

text \<open>
  Claim C6.  With \<^verbatim>\<open>retry_count\<close> \<open>N \<ge> 1\<close>, \<^verbatim>\<open>connect\<close> dials at most \<open>N\<close> times.  When every
  dial fails with an error of the \<^verbatim>\<open>OSError\<close> family it returns \<^verbatim>\<open>False\<close> after exactly \<open>N\<close>
  dials, with a sleep of \<^verbatim>\<open>retry_time\<close> between consecutive dials and none after the last,
  and leaves the client disconnected as it was.  When the dial number \<open>k\<close> (counted from
  0, \<open>k < N\<close>) is the first to succeed, it returns \<^verbatim>\<open>True\<close> right after that dial, having
  made \<open>k + 1\<close> dials and \<open>k\<close> sleeps, and holds the new reader and writer.
\<close>

theorem connect_retry_policy:
  assumes "1 \<le> retry_count w"
  shows "count_list (new_events w (snd (connect w))) Dial \<le> nat (retry_count w)
       \<and> ((\<forall>k < nat (retry_count w). dial_fails w k) \<longrightarrow>
            fst (connect w) = Inr False
          \<and> filter is_net_event (new_events w (snd (connect w)))
              = retry_pattern (nat (retry_count w)) (retry_time w)
          \<and> reader (snd (connect w)) = reader w \<and> writer (snd (connect w)) = writer w)
       \<and> (\<forall>k r wr. k < nat (retry_count w) \<and> (\<forall>j<k. dial_fails w j)
              \<and> network w (dialled w + k) = Connected r wr \<longrightarrow>
            fst (connect w) = Inr True
          \<and> filter is_net_event (new_events w (snd (connect w))) = retry_pattern (Suc k) (retry_time w)
          \<and> reader (snd (connect w)) = Some r \<and> writer (snd (connect w)) = Some wr)"
proof -
  define n where "n = nat (retry_count w)"
  have rc: "retry_count w = int n" using assms by (simp add: n_def)
  have c: "connect w = connect_loop [0..<n] w" by (simp add: connect_def n_def)
  have bound: "count_list (new_events w (snd (connect w))) Dial \<le> n"
  proof -
    obtain res w' where r: "connect_loop [0..<n] w = (res, w')" by (cases "connect_loop [0..<n] w")
    from connect_loop_dials [OF this] obtain evs where
      "trace w' = trace w @ evs" "count_list evs Dial \<le> length [0..<n]" by blast
    then show ?thesis by (simp add: c r new_events_def)
  qed
  have allfail: "fst (connect w) = Inr False
          \<and> filter is_net_event (new_events w (snd (connect w))) = retry_pattern n (retry_time w)
          \<and> reader (snd (connect w)) = reader w \<and> writer (snd (connect w)) = writer w"
    if f: "\<forall>k < n. dial_fails w k"
  proof -
    have "\<forall>k<length [0..<n]. dial_fails w k" using f by simp
    from connect_loop_all_fail [OF this] net_events_all_fail [of n "retry_time w"] show ?thesis
      unfolding c by (simp add: new_events_def rc)
  qed
  have succ: "fst (connect w) = Inr True
          \<and> filter is_net_event (new_events w (snd (connect w))) = retry_pattern (Suc k) (retry_time w)
          \<and> reader (snd (connect w)) = Some r \<and> writer (snd (connect w)) = Some wr"
    if k: "k < n" and f: "\<forall>j<k. dial_fails w j" and net: "network w (dialled w + k) = Connected r wr"
    for k r wr
  proof -
    have "k < length [0..<n]" using k by simp
    from connect_loop_success [OF this f net] net_events_success [OF k, of "retry_time w"] show ?thesis
      unfolding c by (simp add: new_events_def rc)
  qed
  show ?thesis using bound allfail succ unfolding n_def by blast
qed

lemma upt_two: "[0..<nat 2] = [0, 1]"
  by (simp add: upt_rec)

text \<open>
  The scenario of the specification: \<^verbatim>\<open>retry_count = 2\<close>, \<^verbatim>\<open>retry_time = 0\<close>, both dials
  refused; and the same client when the second dial succeeds.
\<close>

theorem connect_retry_policy_witness:
  "(1::int) \<le> retry_count (fresh_client 0 2 (\<lambda>k. refused))
   \<and> dial_fails (fresh_client 0 2 (\<lambda>k. refused)) 0
   \<and> dial_fails (fresh_client 0 2 (\<lambda>k. refused)) 1
   \<and> fst (connect (fresh_client 0 2 (\<lambda>k. refused))) = Inr False
   \<and> filter is_net_event (new_events (fresh_client 0 2 (\<lambda>k. refused)) (snd (connect (fresh_client 0 2 (\<lambda>k. refused)))))
       = [Dial, Sleep 0, Dial]
   \<and> (1::nat) < nat (retry_count (fresh_client 0 2 (\<lambda>k. if k = 1 then Connected idle_reader idle_writer else refused)))
   \<and> dial_fails (fresh_client 0 2 (\<lambda>k. if k = 1 then Connected idle_reader idle_writer else refused)) 0
   \<and> fst (connect (fresh_client 0 2 (\<lambda>k. if k = 1 then Connected idle_reader idle_writer else refused))) = Inr True
   \<and> filter is_net_event (new_events (fresh_client 0 2 (\<lambda>k. if k = 1 then Connected idle_reader idle_writer else refused))
        (snd (connect (fresh_client 0 2 (\<lambda>k. if k = 1 then Connected idle_reader idle_writer else refused)))))
       = [Dial, Sleep 0, Dial]"
proof -
  let ?w0 = "fresh_client 0 2 (\<lambda>k. refused)"
  let ?w1 = "fresh_client 0 2 (\<lambda>k. if k = 1 then Connected idle_reader idle_writer else refused)"
  have h0: "1 \<le> retry_count ?w0" by (simp add: fresh_client_def)
  have h1: "1 \<le> retry_count ?w1" by (simp add: fresh_client_def)
  have f0: "\<forall>k < nat (retry_count ?w0). dial_fails ?w0 k"
    by (simp add: fresh_client_def dial_fails_def refused_def)
  have f1: "(1::nat) < nat (retry_count ?w1) \<and> (\<forall>j<1. dial_fails ?w1 j)
      \<and> network ?w1 (dialled ?w1 + 1) = Connected idle_reader idle_writer"
    by (simp add: fresh_client_def dial_fails_def refused_def)
  have p0: "retry_pattern (nat (retry_count ?w0)) (retry_time ?w0) = [Dial, Sleep 0, Dial]"
    by (simp add: retry_pattern_def fresh_client_def)
  have p1: "retry_pattern (Suc 1) (retry_time ?w1) = [Dial, Sleep 0, Dial]"
    by (simp add: retry_pattern_def fresh_client_def)
  from connect_retry_policy [OF h0] f0 p0
  have a: "fst (connect ?w0) = Inr False
     \<and> filter is_net_event (new_events ?w0 (snd (connect ?w0))) = [Dial, Sleep 0, Dial]"
    by simp
  from connect_retry_policy [OF h1] f1 p1
  have b: "fst (connect ?w1) = Inr True
     \<and> filter is_net_event (new_events ?w1 (snd (connect ?w1))) = [Dial, Sleep 0, Dial]"
    by (metis (no_types, lifting))
  have g0: "dial_fails ?w0 0 \<and> dial_fails ?w0 1"
    by (simp add: fresh_client_def dial_fails_def refused_def)
  have g1: "(1::nat) < nat (retry_count ?w1) \<and> dial_fails ?w1 0"
    by (simp add: fresh_client_def dial_fails_def refused_def)
  from h0 g0 a g1 b show ?thesis by simp
qed

section \<open>The framed channel: round trip\<close>

lemma be32_digits:
  fixes n :: nat
  assumes "n < 4294967296"
  shows "(n div 16777216) mod 256 * 16777216 + (n div 65536) mod 256 * 65536
         + (n div 256) mod 256 * 256 + n mod 256 = n"
proof -
  have a: "n div 16777216 < 256" using assms by (simp add: less_mult_imp_div_less)
  have b: "n div 65536 = (n div 16777216) * 256 + (n div 65536) mod 256"
    using div_mult2_eq [of n 65536 256] by (simp add: mult.commute)
  have c: "n div 256 = (n div 65536) * 256 + (n div 256) mod 256"
    using div_mult2_eq [of n 256 256] by (simp add: mult.commute)
  have d: "n = (n div 256) * 256 + n mod 256" by simp
  define A B C b' c' d' where "A = n div 16777216" and "B = n div 65536" and "C = n div 256"
    and "b' = (n div 65536) mod 256" and "c' = (n div 256) mod 256" and "d' = n mod 256"
  have "B = A * 256 + b'" "C = B * 256 + c'" "n = C * 256 + d'" "A < 256"
    using a b c d unfolding A_def B_def C_def b'_def c'_def d'_def by blast+
  then have "A mod 256 * 16777216 + b' * 65536 + c' * 256 + d' = n" by simp
  then show ?thesis unfolding A_def B_def C_def b'_def c'_def d'_def .
qed

lemma unpack_pack_be32:
  assumes "n < 4294967296"
  shows "\<exists>p. pack_be32 n = Inr p \<and> length p = 4 \<and> unpack_be32 p = n"
  using be32_digits [OF assms] assms
  by (simp add: pack_be32_def unpack_be32_def unat_of_nat)

lemma readexactly_prefix:
  "readexactly (length p) \<lparr>buffered = p @ rest, broken = b\<rparr>
     = (Inr p, \<lparr>buffered = rest, broken = b\<rparr>)"
  by (simp add: readexactly_def)

lemma decode_frame_whole:
  assumes "length p = 4" and "unpack_be32 p = length m"
  shows "decode_frame cd \<lparr>buffered = p @ m @ rest, broken = b\<rparr>
     = (loads cd m, \<lparr>buffered = rest, broken = b\<rparr>, [Recv 4, Recv (length m)])"
proof -
  have 1: "readexactly 4 \<lparr>buffered = p @ m @ rest, broken = b\<rparr>
      = (Inr p, \<lparr>buffered = m @ rest, broken = b\<rparr>)"
    using readexactly_prefix [of p "m @ rest" b] assms(1) by simp
  have 2: "readexactly (length m) \<lparr>buffered = m @ rest, broken = b\<rparr>
      = (Inr m, \<lparr>buffered = rest, broken = b\<rparr>)"
    by (rule readexactly_prefix)
  show ?thesis by (simp add: decode_frame_def 1 2 assms(2))
qed

subsection \<open>The JSON text of a document is read back as the document\<close>

lemma ascii_simps [simp]:
  "ascii []"
  "ascii (c # s) \<longleftrightarrow> (of_char c :: nat) < 128 \<and> ascii s"
  "ascii (s @ t) \<longleftrightarrow> ascii s \<and> ascii t"
  by (auto simp: ascii_def)

































lemma skip_ws_simps [simp]:
  "skip_ws [] = []"
  "is_ws c \<Longrightarrow> skip_ws (c # s) = skip_ws s"
  "\<not> is_ws c \<Longrightarrow> skip_ws (c # s) = c # s"
  by (simp_all add: skip_ws_def)

lemma is_ws_simps [simp]:
  "is_ws (CHR '' '')" "\<not> is_ws (CHR '','')" "\<not> is_ws (CHR '']'')" "\<not> is_ws (CHR ''}'')"
  "\<not> is_ws (CHR '':'')" "\<not> is_ws (CHR 0x22)" "\<not> is_ws (CHR ''['')" "\<not> is_ws (CHR ''{'')"
  "\<not> is_ws (CHR ''n'')" "\<not> is_ws (CHR ''t'')" "\<not> is_ws (CHR ''f'')" "\<not> is_ws (CHR ''-'')"
  by (simp_all add: is_ws_def)

























subsection \<open>The frame of the example request\<close>

lemma py_encode:
  assumes "length (json_text d) < 4294967296"
  shows "\<exists>F. encode_frame py_json d = Inr F"
proof -
  have "length (bytes_of (json_text d)) < 4294967296" using assms by (simp add: bytes_of_def)
  from unpack_pack_be32 [OF this] show ?thesis
    by (auto simp: encode_frame_def py_json_def json_dumps_def)
qed

lemma request_text_length: "length (json_text (JObj tools_list_request)) = 67"
  by code_simp

lemma request_frame: "\<exists>F. encode_frame py_json (JObj tools_list_request) = Inr F"
proof -
  have "length (json_text (JObj tools_list_request)) < 4294967296"
    unfolding request_text_length by simp
  then show ?thesis by (rule py_encode)
qed


section \<open>Facts about \<^verbatim>\<open>send_request\<close>\<close>

lemma no_lock_events_simps [simp]:
  "no_lock_events []"
  "no_lock_events (e # es) \<longleftrightarrow> e \<noteq> Acquire \<and> e \<noteq> Release \<and> no_lock_events es"
  "no_lock_events (xs @ ys) \<longleftrightarrow> no_lock_events xs \<and> no_lock_events ys"
  by (auto simp: no_lock_events_def)

lemma held_after_append: "held_after h (xs @ ys) = held_after (held_after h xs) ys"
  by (induction h xs rule: held_after.induct) simp_all


lemma outer_events_append:
  "outer_events h (xs @ ys) = outer_events h xs @ outer_events (held_after h xs) ys"
  by (induction h xs rule: outer_events.induct) simp_all

lemma held_after_inner: "no_lock_events evs \<Longrightarrow> held_after h evs = h"
  by (induction h evs rule: held_after.induct) simp_all


lemma outer_events_inner: "no_lock_events evs \<Longrightarrow> outer_events True evs = []"
  by (induction "True" evs rule: outer_events.induct) simp_all

lemma failed_dial_events_inner [simp]: "no_lock_events (failed_dial_events rc rt a)"
  by (simp add: failed_dial_events_def)

lemma failed_dial_events_dials [simp]: "count_list (failed_dial_events rc rt a) Dial = 1"
  by (simp add: failed_dial_events_def)

lemma connect_loop_step_fail:
  "network w (dialled w) = Refused e \<Longrightarrow> is_OSError (cls e) \<Longrightarrow>
   connect_loop (a # as) w =
     connect_loop as (w\<lparr>dialled := Suc (dialled w),
                        trace := trace w @ failed_dial_events (retry_count w) (retry_time w) a\<rparr>)"
  by (simp add: open_connection_def emit_def failed_dial_events_def)

lemma connect_loop_summary:
  "connect_loop as w = (res, w') \<Longrightarrow>
   \<exists>evs d rd wt. w' = w\<lparr>reader := rd, writer := wt, dialled := dialled w + d,
                  trace := trace w @ evs\<rparr>
     \<and> no_lock_events evs \<and> count_list evs Dial = d \<and> d \<le> length as
     \<and> (case res of
          Inr ok \<Rightarrow>
            if ok then \<exists>r wr. 0 < d \<and> network w (dialled w + (d - 1)) = Connected r wr
                        \<and> rd = Some r \<and> wt = Some wr
            else rd = reader w \<and> wt = writer w
        | Inl e \<Rightarrow> 0 < d \<and> network w (dialled w + (d - 1)) = Refused e \<and> \<not> is_OSError (cls e)
                   \<and> rd = reader w \<and> wt = writer w)"
proof (induction as arbitrary: w)
  case Nil
  then have "w' = w\<lparr>reader := reader w, writer := writer w, dialled := dialled w + 0,
                  trace := trace w @ [Log ERROR]\<rparr>" "res = Inr False"
    by (auto simp: emit_def)
  then show ?case
    by (intro exI [of _ "[Log ERROR]"] exI [of _ 0] exI [of _ "reader w"] exI [of _ "writer w"]) simp
next
  case (Cons a as)
  show ?case
  proof (cases "network w (dialled w)")
    case (Connected r wr)
    with Cons.prems have
      "w' = w\<lparr>reader := Some r, writer := Some wr, dialled := dialled w + 1,
                  trace := trace w @ [Log INFO, Dial, Log INFO]\<rparr>" "res = Inr True"
      by (auto simp: open_connection_def emit_def)
    with Connected show ?thesis
      by (intro exI [of _ "[Log INFO, Dial, Log INFO]"] exI [of _ 1]
            exI [of _ "Some r"] exI [of _ "Some wr"]) simp
  next
    case (Refused e)
    show ?thesis
    proof (cases "is_OSError (cls e)")
      case False
      with Refused Cons.prems have
        "w' = w\<lparr>reader := reader w, writer := writer w, dialled := dialled w + 1,
                  trace := trace w @ [Log INFO, Dial]\<rparr>" "res = Inl e"
        by (auto simp: open_connection_def emit_def)
      with Refused False show ?thesis
        by (intro exI [of _ "[Log INFO, Dial]"] exI [of _ 1]
              exI [of _ "reader w"] exI [of _ "writer w"]) simp
    next
      case True
      let ?pre = "failed_dial_events (retry_count w) (retry_time w) a"
      let ?w1 = "w\<lparr>dialled := Suc (dialled w), trace := trace w @ ?pre\<rparr>"
      from Cons.prems connect_loop_step_fail [OF Refused True]
      have "connect_loop as ?w1 = (res, w')" by simp
      from Cons.IH [OF this] obtain evs d rd wt where
        w': "w' = ?w1\<lparr>reader := rd, writer := wt, dialled := dialled ?w1 + d,
                  trace := trace ?w1 @ evs\<rparr>"
        and inner: "no_lock_events evs" and cnt: "count_list evs Dial = d" and d: "d \<le> length as"
        and res: "(case res of
          Inr ok \<Rightarrow>
            if ok then \<exists>r wr. 0 < d \<and> network ?w1 (dialled ?w1 + (d - 1)) = Connected r wr
                        \<and> rd = Some r \<and> wt = Some wr
            else rd = reader ?w1 \<and> wt = writer ?w1
        | Inl e \<Rightarrow> 0 < d \<and> network ?w1 (dialled ?w1 + (d - 1)) = Refused e \<and> \<not> is_OSError (cls e)
                   \<and> rd = reader ?w1 \<and> wt = writer ?w1)"
        by blast
      have eq: "w' = w\<lparr>reader := rd, writer := wt, dialled := dialled w + Suc d,
                  trace := trace w @ (?pre @ evs)\<rparr>"
        by (subst w') simp
      have r': "(case res of
          Inr ok \<Rightarrow>
            if ok then \<exists>r wr. 0 < Suc d \<and> network w (dialled w + (Suc d - 1)) = Connected r wr
                        \<and> rd = Some r \<and> wt = Some wr
            else rd = reader w \<and> wt = writer w
        | Inl e \<Rightarrow> 0 < Suc d \<and> network w (dialled w + (Suc d - 1)) = Refused e \<and> \<not> is_OSError (cls e)
                   \<and> rd = reader w \<and> wt = writer w)"
        using res by (auto split: sum.splits if_splits simp: Suc_diff_Suc)
      show ?thesis
        using eq inner cnt d r'
        by (intro exI [of _ "?pre @ evs"] exI [of _ "Suc d"] exI [of _ rd] exI [of _ wt]) simp
    qed
  qed
qed

lemma exchange_events:
  "exchange cd request r wr = (res, r', wr', evs) \<Longrightarrow>
   no_lock_events evs \<and> count_list evs Dial = 0"
  by (auto simp: exchange_def decode_frame_def Let_def
      split: sum.splits prod.splits option.splits)

lemma disconnect_summary:
  "\<exists>evs rd. disconnect w = w\<lparr>reader := rd, writer := None, trace := trace w @ evs\<rparr>
     \<and> no_lock_events evs \<and> count_list evs Dial = 0
     \<and> (writer w \<noteq> None \<longrightarrow> rd = None)"
proof (cases "writer w")
  case None
  then have "disconnect w = w\<lparr>reader := reader w, writer := None, trace := trace w @ []\<rparr>"
    by (simp add: disconnect_def)
  then show ?thesis using None
    by (intro exI [of _ "[]"] exI [of _ "reader w"]) simp
next
  case (Some wr)
  then have "disconnect w = w\<lparr>reader := None, writer := None, trace := trace w @ [Close, Log INFO]\<rparr>"
    by (simp add: disconnect_def emit_def)
  then show ?thesis
    by (intro exI [of _ "[Close, Log INFO]"] exI [of _ None]) simp
qed

lemma ensure_connected_summary:
  assumes that: "ensure_connected le w = (res, w')"
  shows "\<exists>evs d rd wt. w' = w\<lparr>reader := rd, writer := wt, dialled := dialled w + d,
                  trace := trace w @ evs\<rparr>
     \<and> no_lock_events evs \<and> count_list evs Dial = d \<and> d \<le> nat (retry_count w)"
proof (cases "writer w = None \<or> reader w = None")
  case False
  with that have "w' = w\<lparr>reader := reader w, writer := writer w, dialled := dialled w + 0,
                  trace := trace w @ []\<rparr>"
    by (simp add: ensure_connected_def)
  then show ?thesis
    by (intro exI [of _ "[]"] exI [of _ 0] exI [of _ "reader w"] exI [of _ "writer w"]) simp
next
  case True
  obtain r0 w0 where c: "connect_loop [0..<nat (retry_count w)] w = (r0, w0)"
    by (cases "connect_loop [0..<nat (retry_count w)] w")
  with True that have "w' = w0"
    by (auto simp: ensure_connected_def connect_def split: sum.splits)
  with connect_loop_summary [OF c] show ?thesis
    by (metis length_upt minus_nat.diff_0)
qed

lemma try_exchange_summary:
  assumes that: "try_exchange cd request le w = (st, w')"
  shows "\<exists>evs rd wt. w' = w\<lparr>reader := rd, writer := wt, trace := trace w @ evs\<rparr>
     \<and> no_lock_events evs \<and> count_list evs Dial = 0"
proof (cases "\<exists>wr r. writer w = Some wr \<and> reader w = Some r")
  case False
  with that have "w' = w\<lparr>reader := reader w, writer := writer w, trace := trace w @ []\<rparr>"
    by (auto simp: try_exchange_def split: option.splits)
  then show ?thesis
    by (intro exI [of _ "[]"] exI [of _ "reader w"] exI [of _ "writer w"]) simp
next
  case True
  then obtain wr r where conn: "writer w = Some wr" "reader w = Some r" by blast
  obtain res r' wr' evs where ex: "exchange cd request r wr = (res, r', wr', evs)"
    by (cases "exchange cd request r wr")
  note ev = exchange_events [OF ex]
  let ?w1 = "w\<lparr>reader := Some r', writer := Some wr', trace := trace w @ evs\<rparr>"
  show ?thesis
  proof (cases res)
    case (Inr response)
    with that conn ex have "w' = ?w1"
      by (simp add: try_exchange_def emits_def)
    with ev show ?thesis by blast
  next
    case (Inl e)
    show ?thesis
    proof (cases "is_transport (cls e)")
      case False
      with that conn ex Inl have
        "w' = w\<lparr>reader := Some r', writer := Some wr', trace := trace w @ (evs @ [Log ERROR])\<rparr>"
        by (simp add: try_exchange_def emits_def emit_def)
      with ev show ?thesis
        by (intro exI [of _ "evs @ [Log ERROR]"] exI [of _ "Some r'"] exI [of _ "Some wr'"]) simp
    next
      case True
      with that conn ex Inl have
        "w' = w\<lparr>reader := None, writer := None,
               trace := trace w @ (evs @ [Log WARNING, Close, Log INFO])\<rparr>"
        by (auto simp add: try_exchange_def emits_def emit_def disconnect_def)
      with ev show ?thesis
        by (intro exI [of _ "evs @ [Log WARNING, Close, Log INFO]"] exI [of _ None] exI [of _ None]) simp
    qed
  qed
qed

lemma attempt_locked_summary:
  "attempt_locked cd request le w = (st, w') \<Longrightarrow>
   \<exists>evs d rd wt. w' = w\<lparr>reader := rd, writer := wt, dialled := dialled w + d,
                  trace := trace w @ Acquire # evs @ [Release]\<rparr>
     \<and> no_lock_events evs \<and> count_list evs Dial = d \<and> d \<le> nat (retry_count w)"
proof -
  assume a: "attempt_locked cd request le w = (st, w')"
  obtain res w1 where e: "ensure_connected le (emit Acquire w) = (res, w1)"
    by (cases "ensure_connected le (emit Acquire w)")
  from ensure_connected_summary [OF e] obtain evs d rd wt where
    w1: "w1 = w\<lparr>reader := rd, writer := wt, dialled := dialled w + d,
                  trace := trace w @ Acquire # evs\<rparr>"
    and ev: "no_lock_events evs" "count_list evs Dial = d" "d \<le> nat (retry_count w)"
    by (auto simp: emit_def)
  show ?thesis
  proof (cases res)
    case (Inl e')
    with a e have "w' = emit Release w1" by (simp add: attempt_locked_def)
    with w1 have "w' = w\<lparr>reader := rd, writer := wt, dialled := dialled w + d,
                  trace := trace w @ Acquire # evs @ [Release]\<rparr>"
      by (simp add: emit_def)
    with ev show ?thesis by blast
  next
    case (Inr le1)
    obtain st2 w2 where t: "try_exchange cd request le1 w1 = (st2, w2)"
      by (cases "try_exchange cd request le1 w1")
    from try_exchange_summary [OF t] obtain evs2 rd2 wt2 where
      w2: "w2 = w1\<lparr>reader := rd2, writer := wt2, trace := trace w1 @ evs2\<rparr>"
      and ev2: "no_lock_events evs2" "count_list evs2 Dial = 0" by blast
    from a e Inr t have "w' = emit Release w2" by (simp add: attempt_locked_def)
    with w1 w2 have "w' = w\<lparr>reader := rd2, writer := wt2, dialled := dialled w + d,
                  trace := trace w @ Acquire # (evs @ evs2) @ [Release]\<rparr>"
      by (simp add: emit_def)
    with ev ev2 show ?thesis
      by (intro exI [of _ "evs @ evs2"] exI [of _ d] exI [of _ rd2] exI [of _ wt2]) simp
  qed
qed


lemma hostile_update:
  assumes "hostile cd request w"
    and "\<And>wr r. wt = Some wr \<Longrightarrow> rd = Some r \<Longrightarrow> doomed cd request r wr"
  shows "hostile cd request (w\<lparr>reader := rd, writer := wt, dialled := dialled w + d, trace := t\<rparr>)"
  using assms
  by (auto simp: hostile_def add.assoc split: option.splits)

lemma hostile_trace [simp]: "hostile cd request (w\<lparr>trace := t\<rparr>) = hostile cd request w"
  by (simp add: hostile_def)

lemma hostile_emit [simp]: "hostile cd request (emit e w) = hostile cd request w"
  by (simp add: emit_def)

lemma ensure_connected_hostile:
  assumes h: "hostile cd request w" and e: "ensure_connected le w = (res, w')"
  shows "hostile cd request w' \<and>
     (\<exists>le1. res = Inr le1 \<and>
        ((\<exists>wr r. writer w' = Some wr \<and> reader w' = Some r) \<or> le1 = Some ''Failed to connect''))"
proof (cases "writer w = None \<or> reader w = None")
  case False
  with e have "w' = w" "res = Inr le" by (simp_all add: ensure_connected_def)
  with h False show ?thesis by auto
next
  case True
  obtain r0 w0 where c: "connect_loop [0..<nat (retry_count w)] w = (r0, w0)"
    by (cases "connect_loop [0..<nat (retry_count w)] w")
  from connect_loop_summary [OF c] obtain evs d rd wt where
    w0: "w0 = w\<lparr>reader := rd, writer := wt, dialled := dialled w + d, trace := trace w @ evs\<rparr>"
    and r0: "(case r0 of
          Inr ok \<Rightarrow>
            if ok then \<exists>r wr. 0 < d \<and> network w (dialled w + (d - 1)) = Connected r wr
                        \<and> rd = Some r \<and> wt = Some wr
            else rd = reader w \<and> wt = writer w
        | Inl e \<Rightarrow> 0 < d \<and> network w (dialled w + (d - 1)) = Refused e \<and> \<not> is_OSError (cls e)
                   \<and> rd = reader w \<and> wt = writer w)"
    by blast
  from h have net: "dial_hostile cd request (network w (dialled w + k))" for k
    by (simp add: hostile_def)
  show ?thesis
  proof (cases r0)
    case (Inl e')
    with r0 have "network w (dialled w + (d - 1)) = Refused e'" "\<not> is_OSError (cls e')"
      by auto
    with net [of "d - 1"] show ?thesis by (simp only: dial_hostile_def dial_result.case)
  next
    case (Inr ok)
    show ?thesis
    proof (cases ok)
      case True
      with r0 Inr obtain r wr where
        conn: "network w (dialled w + (d - 1)) = Connected r wr" "rd = Some r" "wt = Some wr"
        by auto
      with net [of "d - 1"] have "doomed cd request r wr"
        by (simp only: dial_hostile_def dial_result.case)
      with conn have "hostile cd request w0"
        unfolding w0 by (intro hostile_update [OF h]) simp
      moreover from e \<open>writer w = None \<or> reader w = None\<close> c Inr True
      have "w' = w0" "res = Inr le"
        by (auto simp: ensure_connected_def connect_def)
      ultimately show ?thesis using conn w0 by simp
    next
      case False
      with r0 Inr have same: "rd = reader w" "wt = writer w" by auto
      with \<open>writer w = None \<or> reader w = None\<close> have "hostile cd request w0"
        unfolding w0 by (intro hostile_update [OF h]) auto
      moreover from e \<open>writer w = None \<or> reader w = None\<close> c Inr False
      have "w' = w0" "res = Inr (Some ''Failed to connect'')"
        by (auto simp: ensure_connected_def connect_def)
      ultimately show ?thesis by simp
    qed
  qed
qed

lemma try_exchange_hostile:
  assumes h: "hostile cd request w" and t: "try_exchange cd request le1 w = (st, w')"
    and c: "(\<exists>wr r. writer w = Some wr \<and> reader w = Some r) \<or> le1 = Some ''Failed to connect''"
  shows "hostile cd request w' \<and> (\<exists>l. st = Retry (Some l))"
proof (cases "\<exists>wr r. writer w = Some wr \<and> reader w = Some r")
  case False
  with t have "w' = w" "st = Retry le1"
    by (auto simp: try_exchange_def split: option.splits)
  with h c False show ?thesis by auto
next
  case True
  then obtain wr r where conn: "writer w = Some wr" "reader w = Some r" by blast
  with h have "doomed cd request r wr" by (simp add: hostile_def)
  then obtain e r' wr' evs where ex: "exchange cd request r wr = (Inl e, r', wr', evs)"
    and tr: "is_transport (cls e)"
    by (auto simp: doomed_def split: prod.splits sum.splits)
  from t conn ex tr have st: "st = Retry (Some (str_of e))"
    and w': "w' = w\<lparr>reader := None, writer := None, dialled := dialled w + 0,
               trace := trace w @ (evs @ [Log WARNING, Close, Log INFO])\<rparr>"
    by (auto simp add: try_exchange_def emits_def emit_def disconnect_def)
  have "hostile cd request w'" unfolding w' by (intro hostile_update [OF h]) simp
  with st tr show ?thesis by auto
qed

lemma attempt_locked_hostile:
  assumes h: "hostile cd request w" and a: "attempt_locked cd request le w = (st, w')"
  shows "hostile cd request w' \<and> (\<exists>l. st = Retry (Some l))"
proof -
  obtain res w1 where e: "ensure_connected le (emit Acquire w) = (res, w1)"
    by (cases "ensure_connected le (emit Acquire w)")
  from h have "hostile cd request (emit Acquire w)" by simp
  from ensure_connected_hostile [OF this e] obtain le1 where
    h1: "hostile cd request w1" and res: "res = Inr le1"
    and c: "(\<exists>wr r. writer w1 = Some wr \<and> reader w1 = Some r) \<or> le1 = Some ''Failed to connect''"
    by blast
  obtain st2 w2 where t: "try_exchange cd request le1 w1 = (st2, w2)"
    by (cases "try_exchange cd request le1 w1")
  from a e res t have "st = st2" "w' = emit Release w2" by (simp_all add: attempt_locked_def)
  with try_exchange_hostile [OF h1 t c] show ?thesis by simp
qed

lemma send_loop_hostile:
  assumes "hostile cd request w" and "send_loop cd request as le w = (res, w')"
  shows "\<exists>evs. trace w' = trace w @ evs
     \<and> outer_events False evs =
         concat (map (outer_attempt_events (retry_count w) (retry_time w)) as)"
  using assms
proof (induction as arbitrary: w le)
  case Nil
  then show ?case by (intro exI [of _ "[]"]) auto
next
  case (Cons a as)
  obtain st w1 where at: "attempt_locked cd request le w = (st, w1)"
    by (cases "attempt_locked cd request le w")
  from attempt_locked_hostile [OF Cons.prems(1) at] obtain l1 where
    h1: "hostile cd request w1" and st: "st = Retry (Some l1)"
    by blast
  from attempt_locked_summary [OF at] obtain evs d rd wt where
    w1: "w1 = w\<lparr>reader := rd, writer := wt, dialled := dialled w + d,
                  trace := trace w @ Acquire # evs @ [Release]\<rparr>"
    and ev: "no_lock_events evs"
    by blast
  define pause where "pause = (if int a < retry_count w - 1 then [Log INFO, Sleep (retry_time w)] else [])"
  define w2 where "w2 = w1\<lparr>trace := trace w1 @ pause\<rparr>"
  have w2': "(if int a < retry_count w - 1
             then emit (Sleep (retry_time w)) (emit (Log INFO) w1)
             else w1) = w2"
    by (simp add: w2_def pause_def emit_def)
  have h2: "hostile cd request w2" using h1 by (simp add: w2_def)
  from Cons.prems(2) at st have "send_loop cd request as (Some l1) w2 = (res, w')"
    by (simp add: w2')
  from Cons.IH [OF h2 this] obtain evs' where
    t': "trace w' = trace w2 @ evs'"
    and out: "outer_events False evs' =
         concat (map (outer_attempt_events (retry_count w2) (retry_time w2)) as)"
    by blast
  have cfg: "retry_count w2 = retry_count w" "retry_time w2 = retry_time w"
    by (simp_all add: w2_def w1)
  let ?all = "(Acquire # evs @ [Release]) @ pause @ evs'"
  have tr: "trace w' = trace w @ ?all" using t' by (simp add: w2_def w1)
  have "outer_events False ?all =
      outer_attempt_events (retry_count w) (retry_time w) a @ outer_events False evs'"
    using ev by (simp add: outer_events_append held_after_append outer_events_inner
        held_after_inner pause_def outer_attempt_events_def)
  with out cfg have o: "outer_events False ?all =
         concat (map (outer_attempt_events (retry_count w) (retry_time w)) (a # as))"
    by simp
  with tr show ?case
    by (intro exI [of _ ?all]) simp
qed

lemma connect_loop_refused:
  "connect_loop as w = (Inr False, w') \<Longrightarrow>
   dialled w' = dialled w + length as
   \<and> (\<forall>k<length as. \<exists>e. network w (dialled w + k) = Refused e)"
proof (induction as arbitrary: w)
  case Nil
  then show ?case by (auto simp: emit_def)
next
  case (Cons a as)
  show ?case
  proof (cases "network w (dialled w)")
    case (Connected r wr)
    with Cons.prems show ?thesis by (simp add: open_connection_def emit_def)
  next
    case (Refused e)
    show ?thesis
    proof (cases "is_OSError (cls e)")
      case False
      with Refused Cons.prems show ?thesis by (simp add: open_connection_def emit_def)
    next
      case True
      let ?w2 = "w\<lparr>dialled := Suc (dialled w),
                    trace := trace w @ failed_dial_events (retry_count w) (retry_time w) a\<rparr>"
      from connect_loop_step_fail [OF Refused True, of a as] Cons.prems
      have "connect_loop as ?w2 = (Inr False, w')" by simp
      from Cons.IH [OF this] have
        d: "dialled w' = Suc (dialled w) + length as"
        and f: "\<forall>k<length as. \<exists>e. network w (Suc (dialled w) + k) = Refused e"
        by simp_all
      have "\<exists>e. network w (dialled w + k) = Refused e" if "k < Suc (length as)" for k
      proof (cases k)
        case 0
        with Refused show ?thesis by simp
      next
        case (Suc j)
        with that f show ?thesis by simp
      qed
      with d show ?thesis by simp
    qed
  qed
qed

lemma doomed_exchange:
  assumes "doomed cd request r wr"
  obtains e r' wr' evs where "exchange cd request r wr = (Inl e, r', wr', evs)"
    and "is_transport (cls e)" and "exchange_text cd request r wr = str_of e"
  using assms
  by (auto simp: doomed_def exchange_text_def split: prod.splits sum.splits)

lemma try_exchange_doomed:
  assumes conn: "writer w = Some wr" "reader w = Some r" and d: "doomed cd request r wr"
    and t: "try_exchange cd request le w = (st, w')"
  shows "st = Retry (Some (exchange_text cd request r wr))
     \<and> writer w' = None \<and> reader w' = None \<and> dialled w' = dialled w
     \<and> network w' = network w \<and> retry_count w' = retry_count w \<and> retry_time w' = retry_time w"
proof -
  from doomed_exchange [OF d] obtain e r' wr' evs where
    ex: "exchange cd request r wr = (Inl e, r', wr', evs)"
    and tr: "is_transport (cls e)" and tx: "exchange_text cd request r wr = str_of e"
    by blast
  from t conn ex tr tx show ?thesis
    by (auto simp add: try_exchange_def emits_def emit_def disconnect_def)
qed

lemma attempt_locked_failure:
  assumes h: "hostile cd request w" and n: "1 \<le> retry_count w"
    and a: "attempt_locked cd request le w = (st, w')"
  shows "st = Retry (Some (last_failure cd request w w'))
     \<and> (writer w' = None \<or> reader w' = None)
     \<and> dialled w \<le> dialled w'
     \<and> (writer w = None \<or> reader w = None \<longrightarrow> dialled w < dialled w')
     \<and> network w' = network w \<and> retry_count w' = retry_count w \<and> retry_time w' = retry_time w"
proof (cases "writer w = None \<or> reader w = None")
  case False
  then obtain wr r where conn: "writer w = Some wr" "reader w = Some r" by auto
  with h have d: "doomed cd request r wr" by (simp add: hostile_def)
  let ?w1 = "emit Acquire w"
  have ec: "ensure_connected le ?w1 = (Inr le, ?w1)"
    using conn by (simp add: ensure_connected_def emit_def)
  obtain st2 w2 where t: "try_exchange cd request le ?w1 = (st2, w2)"
    by (cases "try_exchange cd request le ?w1")
  have c1: "writer ?w1 = Some wr" "reader ?w1 = Some r" using conn by (simp_all add: emit_def)
  from try_exchange_doomed [OF c1 d t] have
    "st2 = Retry (Some (exchange_text cd request r wr))" "writer w2 = None" "reader w2 = None"
    "dialled w2 = dialled w" "network w2 = network w" "retry_count w2 = retry_count w"
    "retry_time w2 = retry_time w"
    by (simp_all add: emit_def)
  moreover from a ec t have "st = st2" "w' = emit Release w2" by (simp_all add: attempt_locked_def)
  ultimately show ?thesis using conn by (simp add: emit_def last_failure_def)
next
  case True
  let ?w1 = "emit Acquire w"
  let ?n = "nat (retry_count w)"
  have n0: "0 < ?n" using n by simp
  obtain r0 w0 where c: "connect_loop [0..<?n] ?w1 = (r0, w0)"
    by (cases "connect_loop [0..<?n] ?w1")
  from connect_loop_summary [OF c] obtain evs d rd wt where
    w0: "w0 = ?w1\<lparr>reader := rd, writer := wt, dialled := dialled ?w1 + d, trace := trace ?w1 @ evs\<rparr>"
    and r0: "(case r0 of
          Inr ok \<Rightarrow>
            if ok then \<exists>r wr. 0 < d \<and> network ?w1 (dialled ?w1 + (d - 1)) = Connected r wr
                        \<and> rd = Some r \<and> wt = Some wr
            else rd = reader ?w1 \<and> wt = writer ?w1
        | Inl e \<Rightarrow> 0 < d \<and> network ?w1 (dialled ?w1 + (d - 1)) = Refused e \<and> \<not> is_OSError (cls e)
                   \<and> rd = reader ?w1 \<and> wt = writer ?w1)"
    by blast
  have f1: "network ?w1 = network w" "dialled ?w1 = dialled w" "reader ?w1 = reader w"
    "writer ?w1 = writer w" "retry_count ?w1 = retry_count w" "retry_time ?w1 = retry_time w"
    by (simp_all add: emit_def)
  from h have net: "dial_hostile cd request (network w (dialled w + k))" for k
    by (simp add: hostile_def)
  have cn: "connect ?w1 = (r0, w0)" using c by (simp add: connect_def f1)
  show ?thesis
  proof (cases r0)
    case (Inl e')
    with r0 have "network w (dialled w + (d - 1)) = Refused e'" "\<not> is_OSError (cls e')"
      by (auto simp: f1)
    with net [of "d - 1"] show ?thesis by (simp only: dial_hostile_def dial_result.case)
  next
    case (Inr ok)
    show ?thesis
    proof (cases ok)
      case ok: True
      with r0 Inr obtain r wr where
        d0: "0 < d"
        and conn: "network w (dialled w + (d - 1)) = Connected r wr" "rd = Some r" "wt = Some wr"
        by (auto simp: f1)
      with net [of "d - 1"] have dm: "doomed cd request r wr"
        by (simp only: dial_hostile_def dial_result.case)
      have ec: "ensure_connected le ?w1 = (Inr le, w0)"
        using True cn Inr ok by (simp add: ensure_connected_def f1)
      obtain st2 w2 where t: "try_exchange cd request le w0 = (st2, w2)"
        by (cases "try_exchange cd request le w0")
      have c0: "writer w0 = Some wr" "reader w0 = Some r" using conn by (simp_all add: w0)
      from try_exchange_doomed [OF c0 dm t] have
        "st2 = Retry (Some (exchange_text cd request r wr))" "writer w2 = None" "reader w2 = None"
        "dialled w2 = dialled w + d" "network w2 = network w" "retry_count w2 = retry_count w"
        "retry_time w2 = retry_time w"
        by (simp_all add: w0 f1)
      moreover from a ec t have "st = st2" "w' = emit Release w2"
        by (simp_all add: attempt_locked_def)
      moreover have "dialled w + d - 1 = dialled w + (d - 1)" using d0 by simp
      ultimately show ?thesis using d0 conn by (simp add: emit_def last_failure_def)
    next
      case nok: False
      with r0 Inr have same: "rd = reader w" "wt = writer w" by (auto simp: f1)
      from connect_loop_refused [of "[0..<?n]" ?w1 w0] c Inr nok have
        dl: "dialled w0 = dialled w + ?n"
        and rf: "\<forall>k<?n. \<exists>e. network w (dialled w + k) = Refused e"
        by (simp_all add: f1)
      from rf n0 obtain e where last: "network w (dialled w + (?n - 1)) = Refused e"
        by (metis diff_less zero_less_one)
      have ec: "ensure_connected le ?w1 = (Inr (Some ''Failed to connect''), w0)"
        using True cn Inr nok by (simp add: ensure_connected_def f1)
      have nc: "writer w0 = None \<or> reader w0 = None" using True same by (simp add: w0)
      then have t: "try_exchange cd request (Some ''Failed to connect'') w0
          = (Retry (Some ''Failed to connect''), w0)"
        by (auto simp: try_exchange_def split: option.splits)
      from a ec t have st: "st = Retry (Some ''Failed to connect'')" and w': "w' = emit Release w0"
        by (simp_all add: attempt_locked_def)
      have "dialled w + ?n - 1 = dialled w + (?n - 1)" using n0 by simp
      with st w' dl last n0 nc show ?thesis
        by (simp add: emit_def last_failure_def w0 f1)
    qed
  qed
qed

lemma last_failure_trace [simp]:
  "last_failure cd request (w\<lparr>trace := t\<rparr>) w' = last_failure cd request w w'"
  "last_failure cd request w (w'\<lparr>trace := t\<rparr>) = last_failure cd request w w'"
  by (simp_all add: last_failure_def)

lemma send_loop_failure:
  assumes "hostile cd request w" and "1 \<le> retry_count w" and "as \<noteq> []"
    and "send_loop cd request as le w = (res, w')"
  shows "res = Inr (error_response request (- 32000)
             (''Failed to communicate with Unity after '' @ str_int (retry_count w)
                @ '' attempts. Last error: '' @ last_failure cd request w w'))
     \<and> dialled w \<le> dialled w'
     \<and> (writer w = None \<or> reader w = None \<longrightarrow> dialled w < dialled w')"
  using assms
proof (induction as arbitrary: w le)
  case Nil
  then show ?case by simp
next
  case (Cons a as)
  obtain st w1 where at: "attempt_locked cd request le w = (st, w1)"
    by (cases "attempt_locked cd request le w")
  from attempt_locked_hostile [OF Cons.prems(1) at] have h1: "hostile cd request w1" by blast
  from attempt_locked_failure [OF Cons.prems(1,2) at] have
    st: "st = Retry (Some (last_failure cd request w w1))"
    and nc: "writer w1 = None \<or> reader w1 = None"
    and dl: "dialled w \<le> dialled w1"
    and dl': "writer w = None \<or> reader w = None \<longrightarrow> dialled w < dialled w1"
    and cfg: "network w1 = network w" "retry_count w1 = retry_count w" "retry_time w1 = retry_time w"
    by simp_all
  define pause where "pause = (if int a < retry_count w - 1 then [Log INFO, Sleep (retry_time w)] else [])"
  define w2 where "w2 = w1\<lparr>trace := trace w1 @ pause\<rparr>"
  have w2': "(if int a < retry_count w - 1
             then emit (Sleep (retry_time w)) (emit (Log INFO) w1)
             else w1) = w2"
    by (simp add: w2_def pause_def emit_def)
  have h2: "hostile cd request w2" using h1 by (simp add: w2_def)
  have run: "send_loop cd request as (Some (last_failure cd request w w1)) w2 = (res, w')"
    using Cons.prems(4) at st by (simp add: w2')
  have cfg2: "network w2 = network w" "retry_count w2 = retry_count w" "dialled w2 = dialled w1"
    "writer w2 = writer w1" "reader w2 = reader w1"
    by (simp_all add: w2_def cfg)
  show ?case
  proof (cases "as = []")
    case True
    with run have "(res, w') = (Inr (error_response request (- 32000)
             (''Failed to communicate with Unity after '' @ str_int (retry_count w2)
                @ '' attempts. Last error: '' @ last_failure cd request w w1)), w2)"
      by (auto simp: fmt_last_error_def)
    then have "w' = w2"
      and "res = Inr (error_response request (- 32000)
             (''Failed to communicate with Unity after '' @ str_int (retry_count w2)
                @ '' attempts. Last error: '' @ last_failure cd request w w1))"
      by simp_all
    then show ?thesis using dl dl' by (simp add: cfg w2_def)
  next
    case False
    have n2: "1 \<le> retry_count w2" using Cons.prems(2) by (simp add: cfg2)
    from Cons.IH [OF h2 n2 False run] nc have
      r: "res = Inr (error_response request (- 32000)
             (''Failed to communicate with Unity after '' @ str_int (retry_count w2)
                @ '' attempts. Last error: '' @ last_failure cd request w2 w'))"
      and lt: "dialled w2 < dialled w'"
      by (simp_all add: cfg2)
    have "last_failure cd request w2 w' = last_failure cd request w w'"
      using lt dl by (simp add: last_failure_def cfg2)
    with r lt dl show ?thesis by (simp add: cfg2)
  qed
qed


section \<open>Retries exhausted\<close>

lemma outer_all_sleep:
  "\<forall>a\<in>set as. int a < rc - 1 \<Longrightarrow>
   concat (map (outer_attempt_events rc rt) as) =
     concat (replicate (length as) [Acquire, Release, Sleep rt])"
  by (induction as) (simp_all add: outer_attempt_events_def)

lemma outer_attempt_pattern:
  "concat (map (outer_attempt_events (int n) rt) [0..<n]) = attempt_pattern n rt"
proof (cases n)
  case 0
  then show ?thesis by (simp add: attempt_pattern_def)
next
  case (Suc m)
  have "\<forall>a\<in>set [0..<m]. int a < int (Suc m) - 1" by simp
  from outer_all_sleep [OF this, of rt]
  show ?thesis unfolding Suc
    by (simp add: attempt_pattern_def outer_attempt_events_def [of _ _ m])
qed

lemma outer_events_acquires: "count_list (outer_events h es) Acquire = count_list es Acquire"
  by (induction h es rule: outer_events.induct) simp_all

lemma attempt_pattern_acquires: "count_list (attempt_pattern n d) Acquire = n"
proof -
  have "count_list (concat (replicate k [Acquire, Release, Sleep d])) Acquire = k" for k
    by (induction k) simp_all
  then show ?thesis by (cases n) (simp_all add: attempt_pattern_def)
qed

text \<open>
  Claim C1.  With \<^verbatim>\<open>retry_count\<close> \<open>N \<ge> 1\<close>, when every dial is refused with an error
  \<^verbatim>\<open>connect\<close> retries or gives a connection on which the exchange of the request fails with
  a transport error, and the connection held at the start, if any, is such a one,
  \<^verbatim>\<open>send_request\<close> returns the document
  \<^verbatim>\<open>{"jsonrpc": "2.0", "id": request.get("id"), "error": {"code": -32000, "message": ...}}\<close>
  whose message is \<^verbatim>\<open>Failed to communicate with Unity after N attempts. Last error: \<close>
  followed by the error of the last attempt (\<open>last_failure\<close>).  The call makes exactly \<open>N\<close>
  attempts, each one a block under the lock in which a missing connection is asked of
  \<^verbatim>\<open>connect\<close> once and the exchange is tried on the connection had: a failed \<^verbatim>\<open>connect\<close> and a
  failed exchange are counted alike, one attempt of the one loop.  Between consecutive
  attempts there is a sleep of \<^verbatim>\<open>retry_time\<close>, and none after the last.
\<close>

theorem send_request_retries_exhausted:
  assumes "1 \<le> retry_count w" and "hostile cd request w"
  shows "fst (send_request cd request w)
       = Inr (JObj [(''jsonrpc'', JStr ''2.0''), (''id'', dict_get request ''id''),
                    (''error'', JObj [(''code'', JInt (- 32000)),
                       (''message'',
                        JStr (''Failed to communicate with Unity after ''
                              @ str_int (retry_count w) @ '' attempts. Last error: ''
                              @ last_failure cd request w (snd (send_request cd request w))))])])
     \<and> outer_events False (new_events w (snd (send_request cd request w)))
         = attempt_pattern (nat (retry_count w)) (retry_time w)
     \<and> count_list (new_events w (snd (send_request cd request w))) Acquire
         = nat (retry_count w)"
proof -
  define n where "n = nat (retry_count w)"
  have rc: "retry_count w = int n" and n: "n \<noteq> 0" using assms(1) by (simp_all add: n_def)
  obtain res w' where run: "send_loop cd request [0..<n] None w = (res, w')"
    by (cases "send_loop cd request [0..<n] None w")
  then have sr: "send_request cd request w = (res, w')" by (simp add: send_request_def n_def)
  from send_loop_hostile [OF assms(2) run] obtain evs where
    t: "trace w' = trace w @ evs"
    and out: "outer_events False evs =
         concat (map (outer_attempt_events (retry_count w) (retry_time w)) [0..<n])"
    by auto
  have ne: "new_events w w' = evs" using t by (simp add: new_events_def)
  have ne0: "[0..<n] \<noteq> []" using n by simp
  from send_loop_failure [OF assms(2,1) ne0 run] have
    res: "res = Inr (error_response request (- 32000)
             (''Failed to communicate with Unity after '' @ str_int (retry_count w)
                @ '' attempts. Last error: '' @ last_failure cd request w w'))"
    by simp
  have pat: "outer_events False evs = attempt_pattern n (retry_time w)"
    using out by (simp add: rc outer_attempt_pattern)
  have "count_list evs Acquire = count_list (outer_events False evs) Acquire"
    by (simp add: outer_events_acquires)
  with pat have cnt: "count_list evs Acquire = n" by (simp add: attempt_pattern_acquires)
  show ?thesis
    using res pat cnt
    by (simp add: sr ne error_response_def n_def [symmetric])
qed

lemma str_nat_digit: "n < 10 \<Longrightarrow> str_nat n = [digit_char n]"
  by (simp add: str_nat.simps)

text \<open>
  \<^verbatim>\<open>retry_count = 2\<close>, \<^verbatim>\<open>retry_time = 0\<close>: the connection held is reset at the first
  \<^verbatim>\<open>drain\<close>, and every dial gives a connection that is at end of file.  The message names the
  error of the second attempt, not of the first.
\<close>

theorem send_request_retries_exhausted_witness:
  "1 \<le> retry_count (reset_once 0 2 (\<lambda>k. replying []))
   \<and> hostile py_json tools_list_request (reset_once 0 2 (\<lambda>k. replying []))
   \<and> fst (send_request py_json tools_list_request (reset_once 0 2 (\<lambda>k. replying [])))
       = Inr (JObj [(''jsonrpc'', JStr ''2.0''), (''id'', JStr ''t''),
                    (''error'', JObj [(''code'', JInt (- 32000)),
                       (''message'',
                        JStr ''Failed to communicate with Unity after 2 attempts. Last error: 0 bytes read on a total of 4 expected bytes'')])])
   \<and> outer_events False
        (new_events (reset_once 0 2 (\<lambda>k. replying []))
          (snd (send_request py_json tools_list_request (reset_once 0 2 (\<lambda>k. replying [])))))
       = [Acquire, Release, Sleep 0, Acquire, Release]
   \<and> count_list
        (new_events (reset_once 0 2 (\<lambda>k. replying []))
          (snd (send_request py_json tools_list_request (reset_once 0 2 (\<lambda>k. replying [])))))
        Acquire = 2"
proof -
  let ?w = "reset_once 0 2 (\<lambda>k. replying [])"
  from request_frame obtain F where
    enc: "encode_frame py_json (JObj tools_list_request) = Inr F" ..
  have rc: "retry_count ?w = 2" "retry_time ?w = 0"
    by (simp_all add: reset_once_def fresh_client_def)
  have h1: "1 \<le> retry_count ?w" by (simp add: rc)
  have ex0: "exchange py_json tools_list_request idle_reader
      \<lparr>written = [], drains = [Some (Exn ConnectionResetError ''Reset'')]\<rparr>
      = (Inl (Exn ConnectionResetError ''Reset''), idle_reader, \<lparr>written = F, drains = []\<rparr>,
         [Send F])"
    by (simp add: exchange_def enc drain_def stream_write_def)
  have ex1: "exchange py_json tools_list_request \<lparr>buffered = [], broken = None\<rparr> idle_writer
      = (Inl (Exn IncompleteReadError ''0 bytes read on a total of 4 expected bytes''),
         \<lparr>buffered = [], broken = None\<rparr>, \<lparr>written = F, drains = []\<rparr>,
         [Send F, Log DEBUG, Recv 4])"
    by (simp add: exchange_def enc drain_def stream_write_def idle_writer_def decode_frame_def
        readexactly_def str_nat_digit digit_char_def)
  have h2: "hostile py_json tools_list_request ?w"
    by (simp add: hostile_def dial_hostile_def doomed_def reset_once_def fresh_client_def
        replying_def ex0 ex1 is_transport_def)
  have u: "[0..<2::nat] = [0, 1]" by (simp add: upt_rec)
  have dl: "dialled (snd (send_request py_json tools_list_request ?w)) = 1"
    by (simp add: send_request_def u attempt_locked_def ensure_connected_def
        try_exchange_def ex0 ex1 reset_once_def replying_def
        fresh_client_def connect_def open_connection_def emit_def emits_def
        disconnect_def is_transport_def)
  have lf: "last_failure py_json tools_list_request ?w
      (snd (send_request py_json tools_list_request ?w))
      = ''0 bytes read on a total of 4 expected bytes''"
    unfolding last_failure_def dl
    by (simp add: reset_once_def fresh_client_def replying_def exchange_text_def ex1)
  have id: "dict_get tools_list_request ''id'' = JStr ''t''"
    by (simp add: dict_get_def tools_list_request_def)
  have pat: "attempt_pattern (nat 2) 0 = [Acquire, Release, Sleep 0, Acquire, Release]"
    by (simp add: attempt_pattern_def)
  have two: "str_int 2 = ''2''" by (simp add: str_int_def str_nat_digit digit_char_def)
  from send_request_retries_exhausted [OF h1 h2] h1 h2 show ?thesis
    unfolding lf rc id pat two by simp
qed


section \<open>The scope of the lock\<close>




section \<open>Exceptions outside the transport family\<close>

lemma no_lock_count [simp]:
  "no_lock_events evs \<Longrightarrow> count_list evs Acquire = 0"
  by (induction evs) auto

lemma non_transport_returns:
  assumes "ensure_connected last_error (emit Acquire w) = (Inr le1, w1)"
    and "writer w1 = Some wr" and "reader w1 = Some r"
    and "exchange cd request r wr = (Inl e, r', wr', evs)" and "\<not> is_transport (cls e)"
  shows "send_loop cd request (attempt # rest) last_error w =
     (Inr (error_response request (- 32603) (''Internal error: '' @ str_of e)),
      emit Release (emit (Log ERROR) (emits evs (w1\<lparr>reader := Some r', writer := Some wr'\<rparr>))))"
  by (simp add: attempt_locked_def try_exchange_def assms)

lemma non_transport_events:
  assumes ec: "ensure_connected last_error (emit Acquire w) = (Inr le1, w1)"
    and ex: "exchange cd request r wr = (Inl e, r', wr', evs)"
  shows "new_events w1
            (emit Release (emit (Log ERROR) (emits evs (w1\<lparr>reader := Some r', writer := Some wr'\<rparr>))))
          = evs @ [Log ERROR, Release]
     \<and> count_list (new_events w
            (emit Release (emit (Log ERROR) (emits evs (w1\<lparr>reader := Some r', writer := Some wr'\<rparr>)))))
          Acquire = 1"
proof -
  from ensure_connected_summary [OF ec] obtain evs0 where
    t1: "trace w1 = trace w @ Acquire # evs0" and n0: "no_lock_events evs0"
    by (auto simp: emit_def)
  from exchange_events [OF ex] have n1: "no_lock_events evs" by simp
  show ?thesis using t1 n0 n1
    by (simp add: new_events_def emit_def emits_def)
qed

text \<open>
  Claim C7.  In an attempt of \<^verbatim>\<open>send_request\<close> that has its connection, when the framed
  exchange raises an exception outside the transport family (for one, \<^verbatim>\<open>json.dumps\<close> raising
  \<^verbatim>\<open>TypeError\<close> on the request), the call returns at once the document
  \<^verbatim>\<open>{"jsonrpc": "2.0", "id": request.get("id"), "error": {"code": -32603, "message": "Internal error: <str(e)>"}}\<close>,
  whatever attempts remain: after the exchange there is only the error log and the release of
  the lock, the lock was taken once in the whole call, no sleep follows, and the connection is
  kept as the exchange left it.
\<close>

theorem internal_error_not_retried:
  assumes "ensure_connected last_error (emit Acquire w) = (Inr le1, w1)"
    and "writer w1 = Some wr" and "reader w1 = Some r"
    and "exchange cd request r wr = (Inl e, r', wr', evs)" and "\<not> is_transport (cls e)"
  shows "fst (send_loop cd request (attempt # rest) last_error w)
           = Inr (JObj [(''jsonrpc'', JStr ''2.0''), (''id'', dict_get request ''id''),
                        (''error'', JObj [(''code'', JInt (- 32603)),
                                          (''message'', JStr (''Internal error: '' @ str_of e))])])
     \<and> new_events w1 (snd (send_loop cd request (attempt # rest) last_error w))
           = evs @ [Log ERROR, Release]
     \<and> count_list (new_events w (snd (send_loop cd request (attempt # rest) last_error w))) Acquire = 1
     \<and> reader (snd (send_loop cd request (attempt # rest) last_error w)) = Some r'
     \<and> writer (snd (send_loop cd request (attempt # rest) last_error w)) = Some wr'"
  unfolding non_transport_returns [OF assms]
  using non_transport_events [OF assms(1,4)]
  by (simp add: emit_def emits_def error_response_def)

lemma send_request_two:
  "retry_count w = 2 \<Longrightarrow> send_request cd request w = send_loop cd request (0 # [1]) None w"
  by (simp add: send_request_def upt_rec)

text \<open>A request the library cannot serialize, sent on an open connection.\<close>

theorem internal_error_not_retried_witness:
  "ensure_connected None (emit Acquire (connected_client 0 2 (\<lambda>k. refused) idle_reader idle_writer))
     = (Inr None, emit Acquire (connected_client 0 2 (\<lambda>k. refused) idle_reader idle_writer))
   \<and> exchange unserializable tools_list_request idle_reader idle_writer
     = (Inl (Exn TypeError ''Object of type set is not JSON serializable''),
        idle_reader, idle_writer, [])
   \<and> \<not> is_transport (cls (Exn TypeError ''Object of type set is not JSON serializable''))
   \<and> fst (send_request unserializable tools_list_request
            (connected_client 0 2 (\<lambda>k. refused) idle_reader idle_writer))
     = Inr (JObj [(''jsonrpc'', JStr ''2.0''), (''id'', JStr ''t''),
                  (''error'', JObj [(''code'', JInt (- 32603)),
                     (''message'',
                      JStr ''Internal error: Object of type set is not JSON serializable'')])])
   \<and> new_events (connected_client 0 2 (\<lambda>k. refused) idle_reader idle_writer)
         (snd (send_request unserializable tools_list_request
            (connected_client 0 2 (\<lambda>k. refused) idle_reader idle_writer)))
     = [Acquire, Log ERROR, Release]
   \<and> reader (snd (send_request unserializable tools_list_request
            (connected_client 0 2 (\<lambda>k. refused) idle_reader idle_writer))) = Some idle_reader
   \<and> writer (snd (send_request unserializable tools_list_request
            (connected_client 0 2 (\<lambda>k. refused) idle_reader idle_writer))) = Some idle_writer"
proof -
  let ?w = "connected_client 0 2 (\<lambda>k. refused) idle_reader idle_writer"
  let ?e = "Exn TypeError ''Object of type set is not JSON serializable''"
  have ec: "ensure_connected None (emit Acquire ?w) = (Inr None, emit Acquire ?w)"
    by (simp add: ensure_connected_def connected_client_def fresh_client_def emit_def)
  have wr: "writer (emit Acquire ?w) = Some idle_writer"
    and rd: "reader (emit Acquire ?w) = Some idle_reader"
    by (simp_all add: connected_client_def fresh_client_def emit_def)
  have ex: "exchange unserializable tools_list_request idle_reader idle_writer
     = (Inl ?e, idle_reader, idle_writer, [])"
    by (simp add: exchange_def encode_frame_def unserializable_def)
  have nt: "\<not> is_transport (cls ?e)" by (simp add: is_transport_def)
  have sr: "send_request unserializable tools_list_request ?w
      = send_loop unserializable tools_list_request (0 # [1]) None ?w"
    by (rule send_request_two) (simp add: connected_client_def fresh_client_def)
  have id: "dict_get tools_list_request ''id'' = JStr ''t''"
    by (simp add: dict_get_def tools_list_request_def)
  have tr: "trace (emit Acquire ?w) = [Acquire]" "trace ?w = []"
    by (simp_all add: connected_client_def fresh_client_def emit_def)
  from internal_error_not_retried [OF ec wr rd ex nt, of 0 "[1]"] have
    a: "fst (send_loop unserializable tools_list_request (0 # [1]) None ?w)
        = Inr (JObj [(''jsonrpc'', JStr ''2.0''), (''id'', JStr ''t''),
                  (''error'', JObj [(''code'', JInt (- 32603)),
                     (''message'',
                      JStr ''Internal error: Object of type set is not JSON serializable'')])])"
    and b: "new_events (emit Acquire ?w)
              (snd (send_loop unserializable tools_list_request (0 # [1]) None ?w))
            = [Log ERROR, Release]"
    and c: "reader (snd (send_loop unserializable tools_list_request (0 # [1]) None ?w))
            = Some idle_reader"
    and d: "writer (snd (send_loop unserializable tools_list_request (0 # [1]) None ?w))
            = Some idle_writer"
    by (simp_all add: id del: send_loop.simps)
  from b have "drop 1 (trace (snd (send_loop unserializable tools_list_request (0 # [1]) None ?w)))
      = [Log ERROR, Release]"
    by (simp add: new_events_def tr del: send_loop.simps)
  moreover have "take 1 (trace (snd (send_loop unserializable tools_list_request (0 # [1]) None ?w)))
      = [Acquire]"
    unfolding non_transport_returns [OF ec wr rd ex nt]
    by (simp add: emit_def emits_def connected_client_def fresh_client_def)
  ultimately have e: "new_events ?w
      (snd (send_loop unserializable tools_list_request (0 # [1]) None ?w))
      = [Acquire, Log ERROR, Release]"
    unfolding new_events_def tr
    by (metis append_take_drop_id drop0 list.size(3) append_Cons append_Nil)
  from a e c d ec ex nt show ?thesis
    by (simp add: sr del: send_loop.simps)
qed

lemma exchange_unparseable:
  assumes "length p = 4" and "unpack_be32 p = length payload"
    and "encode_frame cd (JObj request) = Inr frame"
    and "drain (stream_write frame wr) = (None, wr')"
    and "loads cd payload = Inl e"
  shows "exchange cd request \<lparr>buffered = p @ payload @ rest_bytes, broken = b\<rparr> wr
     = (Inl e, \<lparr>buffered = rest_bytes, broken = b\<rparr>, wr',
        [Send frame, Log DEBUG, Recv 4, Recv (length payload)])"
  by (simp add: exchange_def assms(3,4,5) decode_frame_whole [OF assms(1,2)])

text \<open>
  Claim C3, as amended.  When the reply frame is read completely and its payload is not
  valid JSON (\<^verbatim>\<open>json.loads\<close> raises \<^verbatim>\<open>JSONDecodeError\<close>, or the decoding
  \<^verbatim>\<open>UnicodeDecodeError\<close>), the failure is handled as a non-transport exception: the call returns
  at once the document with code \<open>-32603\<close>, \<^verbatim>\<open>disconnect\<close> is not called (no socket is closed),
  the connection stays open with the frame consumed, and no retry follows.
\<close>

theorem unparseable_reply_not_retried:
  assumes "ensure_connected last_error (emit Acquire w) = (Inr le1, w1)"
    and "writer w1 = Some wr"
    and "reader w1 = Some \<lparr>buffered = p @ payload @ rest_bytes, broken = b\<rparr>"
    and "length p = 4" and "unpack_be32 p = length payload"
    and "encode_frame cd (JObj request) = Inr frame"
    and "drain (stream_write frame wr) = (None, wr')"
    and "loads cd payload = Inl e"
    and "cls e = JSONDecodeError \<or> cls e = UnicodeDecodeError"
  shows "fst (send_loop cd request (attempt # rest) last_error w)
           = Inr (error_response request (- 32603) (''Internal error: '' @ str_of e))
     \<and> new_events w1 (snd (send_loop cd request (attempt # rest) last_error w))
           = [Send frame, Log DEBUG, Recv 4, Recv (length payload), Log ERROR, Release]
     \<and> count_list (new_events w (snd (send_loop cd request (attempt # rest) last_error w))) Acquire = 1
     \<and> reader (snd (send_loop cd request (attempt # rest) last_error w))
           = Some \<lparr>buffered = rest_bytes, broken = b\<rparr>
     \<and> writer (snd (send_loop cd request (attempt # rest) last_error w)) = Some wr'"
proof -
  note ex = exchange_unparseable [OF assms(4-8), of rest_bytes b]
  have nt: "\<not> is_transport (cls e)" using assms(9) by (auto simp: is_transport_def)
  show ?thesis
    unfolding non_transport_returns [OF assms(1-3) ex nt]
    using non_transport_events [OF assms(1) ex]
    by (simp add: emit_def emits_def)
qed

lemma garbled_payload:
  "json_loads (bytes_of ''oops'') = Inl (Exn JSONDecodeError ''invalid JSON'')"
  by code_simp

lemma garbled_prefix: "unpack_be32 [0, 0, 0, 4] = length (bytes_of ''oops'')"
  by (simp add: unpack_be32_def bytes_of_def)

text \<open>The frame with payload \<^verbatim>\<open>oops\<close> on an open connection.\<close>

theorem unparseable_reply_not_retried_witness:
  "ensure_connected None (emit Acquire garbled_client) = (Inr None, emit Acquire garbled_client)
   \<and> unpack_be32 [0, 0, 0, 4] = length (bytes_of ''oops'')
   \<and> loads py_json (bytes_of ''oops'') = Inl (Exn JSONDecodeError ''invalid JSON'')
   \<and> fst (send_request py_json tools_list_request garbled_client)
       = Inr (error_response tools_list_request (- 32603) ''Internal error: invalid JSON'')
   \<and> count_list (new_events garbled_client
         (snd (send_request py_json tools_list_request garbled_client))) Acquire = 1
   \<and> reader (snd (send_request py_json tools_list_request garbled_client))
       = Some \<lparr>buffered = [], broken = None\<rparr>
   \<and> writer (snd (send_request py_json tools_list_request garbled_client)) \<noteq> None"
proof -
  from request_frame obtain F where
    enc: "encode_frame py_json (JObj tools_list_request) = Inr F" ..
  have ec: "ensure_connected None (emit Acquire garbled_client)
      = (Inr None, emit Acquire garbled_client)"
    by (simp add: ensure_connected_def garbled_client_def connected_client_def
        fresh_client_def emit_def)
  have wr: "writer (emit Acquire garbled_client) = Some idle_writer"
    by (simp add: garbled_client_def connected_client_def fresh_client_def emit_def)
  have rd: "reader (emit Acquire garbled_client)
      = Some \<lparr>buffered = [0, 0, 0, 4] @ bytes_of ''oops'' @ [], broken = None\<rparr>"
    by (simp add: garbled_client_def connected_client_def fresh_client_def emit_def garbled_def)
  have len: "length [0::byte, 0, 0, 4] = 4" by simp
  have dr: "drain (stream_write F idle_writer) = (None, \<lparr>written = F, drains = []\<rparr>)"
    by (simp add: drain_def stream_write_def idle_writer_def)
  have ld: "loads py_json (bytes_of ''oops'') = Inl (Exn JSONDecodeError ''invalid JSON'')"
    by (simp add: py_json_def garbled_payload)
  have cl: "cls (Exn JSONDecodeError ''invalid JSON'') = JSONDecodeError
      \<or> cls (Exn JSONDecodeError ''invalid JSON'') = UnicodeDecodeError" by simp
  have sr: "send_request py_json tools_list_request garbled_client
      = send_loop py_json tools_list_request (0 # [1]) None garbled_client"
    by (rule send_request_two)
       (simp add: garbled_client_def connected_client_def fresh_client_def)
  from unparseable_reply_not_retried [OF ec wr rd len garbled_prefix enc dr ld cl, of 0 "[1]"]
    ec garbled_prefix ld
  show ?thesis
    by (simp add: sr del: send_loop.simps)
qed

text \<open>
  The claim as stated fails there: the call ends with code \<open>-32603\<close> after one attempt, the
  writer is still held and no socket was closed.
\<close>

theorem unparseable_reply_keeps_connection:
  "error_code_of (fst (send_request py_json tools_list_request garbled_client)) = JInt (- 32603)
   \<and> writer (snd (send_request py_json tools_list_request garbled_client)) \<noteq> None
   \<and> count_list (new_events garbled_client
         (snd (send_request py_json tools_list_request garbled_client))) Close = 0
   \<and> count_list (new_events garbled_client
         (snd (send_request py_json tools_list_request garbled_client))) Acquire = 1"
proof -
  from request_frame obtain F where
    enc: "encode_frame py_json (JObj tools_list_request) = Inr F" ..
  have len: "length [0::byte, 0, 0, 4] = 4" by simp
  have dec: "decode_frame py_json \<lparr>buffered = garbled, broken = None\<rparr>
      = (Inl (Exn JSONDecodeError ''invalid JSON''), \<lparr>buffered = [], broken = None\<rparr>,
         [Recv 4, Recv (length (bytes_of ''oops''))])"
    using decode_frame_whole [OF len garbled_prefix, of py_json "[]" None]
    by (simp add: garbled_def py_json_def garbled_payload)
  have u: "[0..<2::nat] = [0, 1]" by (simp add: upt_rec)
  show ?thesis
    by (simp add: send_request_def u attempt_locked_def ensure_connected_def
        try_exchange_def exchange_def enc dec drain_def stream_write_def garbled_client_def
        connected_client_def fresh_client_def idle_writer_def emit_def emits_def
        is_transport_def new_events_def error_code_of_def error_response_def dict_get_def)
qed

end
